theory Spec2Isabelle
  imports Main "HOL-Library.Word"
begin

section \<open>Configuration loader (export\_cert.py, lines 7--24)\<close>

text \<open>
  A Python \<open>str\<close> is modelled as a \<open>string\<close>; a \<open>char\<close> stands for the code point of the
  same number, so the model covers the code points below 256.

  \<open>str.strip()\<close> without argument removes the characters for which \<open>str.isspace\<close> holds.
  Below 256 these are the code points 9 to 13, 28 to 32, 133 and 160.
\<close>

definition is_space :: "char \<Rightarrow> bool" where
  "is_space c = (of_char c \<in> set [9, 10, 11, 12, 13, 28, 29, 30, 31, 32, 133, 160 :: nat])"

text \<open>
  \<open>s.strip(chars)\<close>: the longest prefix and the longest suffix made of characters that
  satisfy the predicate are cut off.
\<close>

definition strip_by :: "(char \<Rightarrow> bool) \<Rightarrow> string \<Rightarrow> string" where
  "strip_by p s = rev (dropWhile p (rev (dropWhile p s)))"

definition strip_ws :: "string \<Rightarrow> string" where
  "strip_ws = strip_by is_space"

text \<open>The argument of \<open>val.strip("\"'")\<close>: the double quote (34) and the single quote (39).\<close>

definition quote_chars :: string where
  "quote_chars = [CHR 0x22, CHR 0x27]"

definition is_quote :: "char \<Rightarrow> bool" where
  "is_quote c = (c \<in> set quote_chars)"

definition strip_quotes :: "string \<Rightarrow> string" where
  "strip_quotes = strip_by is_quote"

text \<open>
  \<open>re.match(r"^([^=]+)=(.*)$", line)\<close> followed by \<open>match.groups()\<close>. The first group is
  greedy and cannot cross an equals sign, so it is the text before the first equals sign
  and must not be empty. The dot does not match a line feed, and \<open>$\<close> matches at the end
  of the string or just before a line feed that ends the string.
\<close>

definition match_kv :: "string \<Rightarrow> (string \<times> string) option" where
  "match_kv line =
     (let key = takeWhile (\<lambda>c. c \<noteq> CHR ''='') line;
          rest = dropWhile (\<lambda>c. c \<noteq> CHR ''='') line
      in if key = [] \<or> rest = [] then None
         else let v = tl rest
              in if CHR 0x0A \<notin> set v then Some (key, v)
                 else if last v = CHR 0x0A \<and> CHR 0x0A \<notin> set (butlast v)
                      then Some (key, butlast v)
                 else None)"

text \<open>The body of the loop \<open>for line in f\<close> (lines 14 to 22), on the dictionary \<open>env_vars\<close>.\<close>

definition load_line :: "string \<Rightarrow> (string \<rightharpoonup> string) \<Rightarrow> (string \<rightharpoonup> string)" where
  "load_line raw env_vars =
     (let line = strip_ws raw
      in if line = [] \<or> take 1 line = ''#'' then env_vars
         else case match_kv line of
                None \<Rightarrow> env_vars
              | Some (key, v) \<Rightarrow> env_vars(key \<mapsto> strip_quotes v))"

text \<open>
  The file is given as the lines its iteration yields; \<open>None\<close> is the case where
  \<open>os.path.exists(ENV_PATH)\<close> is false and \<open>env_vars\<close> stays empty.
\<close>

definition load_env :: "string list option \<Rightarrow> (string \<rightharpoonup> string)" where
  "load_env f = (case f of None \<Rightarrow> Map.empty | Some ls \<Rightarrow> fold load_line ls Map.empty)"


text \<open>Truth value of \<open>not v\<close> for a value that is \<open>None\<close> or a \<open>str\<close>.\<close>

definition falsy :: "string option \<Rightarrow> bool" where
  "falsy v = (v = None \<or> v = Some [])"

section \<open>The process and its environment\<close>

type_synonym byte = "8 word"
type_synonym path = string

text \<open>The fields of \<open>subprocess.CompletedProcess\<close> that the script reads.\<close>

record proc_result =
  returncode :: int
  stdout :: string
  stderr :: string

text \<open>
  What a finished command leaves to the parent: its exit status and the bytes of its two
  output streams. \<open>text=True\<close> decodes the bytes; the model gives each stream as the text
  its bytes decode to, or \<open>None\<close> where they do not decode.
\<close>

record proc_output =
  exit_code :: int
  out_text :: "string option"
  err_text :: "string option"

text \<open>
  The effects of the process on its environment, in the order they happen: an external
  command that ran, with its argument list and what it left, the removal of a file, and
  the writing of a text to a file.
\<close>

datatype event =
    Exec "string list" proc_output
  | Remove path
  | Write path string

text \<open>
  The environment: the regular files by absolute path, the state of everything else the
  external utility works on (keychains, search list), and the effects so far. Links and
  directories are not modelled.
\<close>

record 'x world =
  fs :: "path \<rightharpoonup> byte list"
  ext :: 'x
  trace :: "event list"

text \<open>
  The external utility is a parameter: any function from the argument list, the files and
  the external state to what the command leaves, new files and a new external state. The
  executable is assumed to be found and to end, so that a command that can be started
  runs to its end.
\<close>

type_synonym 'x tool =
  "string list \<Rightarrow> (path \<rightharpoonup> byte list) \<Rightarrow> 'x \<Rightarrow> proc_output \<times> (path \<rightharpoonup> byte list) \<times> 'x"

datatype exn = TypeError | IndexError | ValueError | UnicodeDecodeError | FileNotFoundError

text \<open>How a computation stops early: \<open>sys.exit(n)\<close> or an exception nobody catches.\<close>

datatype abort = SystemExit nat | Raised exn

type_synonym ('a, 'x) action = "'x world \<Rightarrow> (abort + 'a) \<times> 'x world"

definition exit_status :: "abort + unit \<Rightarrow> nat" where
  "exit_status r = (case r of Inr _ \<Rightarrow> 0 | Inl (SystemExit n) \<Rightarrow> n | Inl (Raised _) \<Rightarrow> 1)"

definition return :: "'a \<Rightarrow> ('a, 'x) action" where
  "return a w = (Inr a, w)"

definition sys_exit :: "nat \<Rightarrow> ('a, 'x) action" where
  "sys_exit n w = (Inl (SystemExit n), w)"

text \<open>One statement after another: the second runs only if the first did not stop.\<close>

definition seq :: "('a, 'x) action \<Rightarrow> ('a \<Rightarrow> ('b, 'x) action) \<Rightarrow> ('b, 'x) action" where
  "seq m f w = (case m w of (Inl e, w') \<Rightarrow> (Inl e, w') | (Inr a, w') \<Rightarrow> f a w')"

text \<open>
  \<open>os.path.abspath\<close> of a path against the working directory, which the script never
  changes. The working directory is taken as \<open>os.getcwd()\<close> gives it, absolute and
  normalised, so that joining is all that is left of the normalisation. The file
  operations below take absolute paths: where the script names a file relative to the
  working directory, the model resolves the name at the call.
\<close>

definition abspath :: "path \<Rightarrow> path \<Rightarrow> path" where
  "abspath cwd p =
     (if take 1 p = ''/'' then p
      else if cwd \<noteq> [] \<and> last cwd = CHR ''/'' then cwd @ p
      else cwd @ ''/'' @ p)"

definition path_exists :: "'x world \<Rightarrow> path \<Rightarrow> bool" where
  "path_exists w p = (fs w p \<noteq> None)"

definition os_remove :: "path \<Rightarrow> (unit, 'x) action" where
  "os_remove p w =
     (case fs w p of
        None \<Rightarrow> (Inl (Raised FileNotFoundError), w)
      | Some _ \<Rightarrow> (Inr (), w\<lparr>fs := (fs w)(p := None), trace := trace w @ [Remove p]\<rparr>))"

text \<open>\<open>with open(p, "rb") as f: content = f.read()\<close>\<close>

definition read_bytes :: "path \<Rightarrow> (byte list, 'x) action" where
  "read_bytes p w =
     (case fs w p of
        None \<Rightarrow> (Inl (Raised FileNotFoundError), w)
      | Some content \<Rightarrow> (Inr content, w))"

text \<open>
  The bytes of a text in UTF-8, the encoding of text files on the platform of the script,
  for code points below 256.
\<close>

definition encode_utf8 :: "string \<Rightarrow> byte list" where
  "encode_utf8 s =
     concat (map (\<lambda>c. let n = (of_char c :: nat)
                      in if n < 128 then [word_of_nat n]
                         else [word_of_nat (192 + n div 64), word_of_nat (128 + n mod 64)]) s)"

text \<open>\<open>with open(p, "w") as f: f.write(s)\<close>\<close>

definition write_text :: "path \<Rightarrow> string \<Rightarrow> (unit, 'x) action" where
  "write_text p s w =
     (Inr (), w\<lparr>fs := (fs w)(p \<mapsto> encode_utf8 s), trace := trace w @ [Write p s]\<rparr>)"

section \<open>Base64 (the standard library's \<open>base64.b64encode\<close>)\<close>

text \<open>
  The standard alphabet with padding, three bytes to four characters. The result is given
  as the \<open>str\<close> that \<open>.decode('utf-8')\<close> makes of it: every character is ASCII.
\<close>

definition b64_alphabet :: string where
  "b64_alphabet = ''ABCDEFGHIJKLMNOPQRSTUVWXYZabcdefghijklmnopqrstuvwxyz0123456789+/''"

definition b64_char :: "nat \<Rightarrow> char" where
  "b64_char i = b64_alphabet ! i"

fun b64encode :: "byte list \<Rightarrow> string" where
  "b64encode (a # b # c # rest) =
     [b64_char (unat a div 4),
      b64_char ((unat a mod 4) * 16 + unat b div 16),
      b64_char ((unat b mod 16) * 4 + unat c div 64),
      b64_char (unat c mod 64)] @ b64encode rest"
| "b64encode [a, b] =
     [b64_char (unat a div 4),
      b64_char ((unat a mod 4) * 16 + unat b div 16),
      b64_char ((unat b mod 16) * 4),
      CHR ''='']"
| "b64encode [a] =
     [b64_char (unat a div 4),
      b64_char ((unat a mod 4) * 16),
      CHR ''='', CHR ''='']"
| "b64encode [] = []"

definition b64_index :: "char \<Rightarrow> nat option" where
  "b64_index = map_of (zip b64_alphabet [0..<64])"

text \<open>
  Decoding of padded text in groups of four characters; \<open>None\<close> for text that is not of
  that form.
\<close>

fun b64decode :: "string \<Rightarrow> byte list option" where
  "b64decode [] = Some []"
| "b64decode (c1 # c2 # c3 # c4 # rest) =
     (case (b64_index c1, b64_index c2) of
        (Some i1, Some i2) \<Rightarrow>
          if c3 = CHR ''='' \<and> c4 = CHR ''='' \<and> rest = []
          then Some [word_of_nat (i1 * 4 + i2 div 16)]
          else (case b64_index c3 of
                  None \<Rightarrow> None
                | Some i3 \<Rightarrow>
                    if c4 = CHR ''='' \<and> rest = []
                    then Some [word_of_nat (i1 * 4 + i2 div 16),
                               word_of_nat ((i2 mod 16) * 16 + i3 div 4)]
                    else (case b64_index c4 of
                            None \<Rightarrow> None
                          | Some i4 \<Rightarrow>
                              (case b64decode rest of
                                 None \<Rightarrow> None
                               | Some bs \<Rightarrow>
                                   Some (word_of_nat (i1 * 4 + i2 div 16) #
                                         word_of_nat ((i2 mod 16) * 16 + i3 div 4) #
                                         word_of_nat ((i3 mod 4) * 64 + i4) # bs))))
      | _ \<Rightarrow> None)"
| "b64decode _ = None"

section \<open>Command runner (lines 41--46)\<close>

text \<open>
  \<open>subprocess.run(cmd, shell=shell, capture_output=True, text=True)\<close> (line 43), for a
  list of strings. An empty list raises \<open>IndexError\<close> and an argument with a NUL character
  raises \<open>ValueError\<close>, both before anything is started. Otherwise the command runs to its
  end on the files and the external state, and the invocation is recorded with what it
  left. Then the output is decoded: where a stream does not decode, \<open>UnicodeDecodeError\<close> is
  raised, after the command has had its effects; else the \<open>CompletedProcess\<close> is returned,
  whatever the exit status (no \<open>check=True\<close>).
\<close>

definition subprocess_run :: "'x tool \<Rightarrow> string list \<Rightarrow> (proc_result, 'x) action" where
  "subprocess_run tool args w =
     (if args = [] then (Inl (Raised IndexError), w)
      else if CHR 0x00 \<in> set (concat args) then (Inl (Raised ValueError), w)
      else case tool args (fs w) (ext w) of
             (output, fs', ext') \<Rightarrow>
               (case (out_text output, err_text output) of
                  (Some out, Some err) \<Rightarrow>
                    (Inr \<lparr>returncode = exit_code output, stdout = out, stderr = err\<rparr>,
                     w\<lparr>fs := fs', ext := ext', trace := trace w @ [Exec args output]\<rparr>)
                | _ \<Rightarrow>
                    (Inl (Raised UnicodeDecodeError),
                     w\<lparr>fs := fs', ext := ext', trace := trace w @ [Exec args output]\<rparr>)))"

text \<open>
  An element of the argument list is a \<open>str\<close> or \<open>None\<close> (what \<open>env_vars.get\<close> gives for
  a missing key). Line 42 joins the elements with spaces before anything is started, and
  \<open>str.join\<close> raises \<open>TypeError\<close> on an element that is not a \<open>str\<close>. Otherwise line 43
  runs the command, and its result is returned whatever its status (line 46). The script
  only calls \<open>run\<close> with the default \<open>shell=False\<close>. What is printed is left out.
\<close>

definition run :: "'x tool \<Rightarrow> string option list \<Rightarrow> (proc_result, 'x) action" where
  "run tool cmd w =
     (case those cmd of
        None \<Rightarrow> (Inl (Raised TypeError), w)
      | Some args \<Rightarrow> subprocess_run tool args w)"

section \<open>The stages of \<open>main\<close> (lines 48--155)\<close>

text \<open>
  \<open>main\<close> is a straight sequence of statements. The model gives each stage of it a
  definition, in the order of the source, and \<open>main\<close> runs them one after another. What
  is printed is left out throughout.
\<close>

definition TEMP_KEYCHAIN :: path where
  "TEMP_KEYCHAIN = ''temp_export.keychain''"

definition VERIFY_KEYCHAIN :: path where
  "VERIFY_KEYCHAIN = ''verify.keychain''"

definition OUTPUT_P12 :: "path \<Rightarrow> path" where
  "OUTPUT_P12 cwd = abspath cwd ''scripts/certificate.p12''"

definition OUTPUT_B64 :: "path \<Rightarrow> path" where
  "OUTPUT_B64 cwd = abspath cwd ''scripts/certificate_base64.txt''"

text \<open>Lines 49 to 53: the old temporary keychain and the old bundle.\<close>

definition delete_temp_cmd :: "string list" where
  "delete_temp_cmd = [''security'', ''delete-keychain'', TEMP_KEYCHAIN]"

definition cleanup :: "'x tool \<Rightarrow> path \<Rightarrow> (unit, 'x) action" where
  "cleanup tool cwd =
     seq (\<lambda>w. if path_exists w (abspath cwd TEMP_KEYCHAIN)
              then seq (run tool (map Some delete_temp_cmd)) (\<lambda>_. return ()) w
              else return () w)
     (\<lambda>_ w. if path_exists w (OUTPUT_P12 cwd)
             then os_remove (OUTPUT_P12 cwd) w
             else return () w)"

text \<open>Lines 55 to 63: the temporary keychain and the search list.\<close>

definition create_temp :: "'x tool \<Rightarrow> string option \<Rightarrow> (unit, 'x) action" where
  "create_temp tool TEMP_PASS =
     seq (run tool [Some ''security'', Some ''create-keychain'', Some ''-p'', TEMP_PASS,
                    Some TEMP_KEYCHAIN]) (\<lambda>_.
     seq (run tool (map Some [''security'', ''set-keychain-settings'', TEMP_KEYCHAIN])) (\<lambda>_.
     seq (run tool [Some ''security'', Some ''unlock-keychain'', Some ''-p'', TEMP_PASS,
                    Some TEMP_KEYCHAIN]) (\<lambda>_.
     seq (run tool (map Some [''security'', ''list-keychains'', ''-d'', ''user'', ''-s'',
                              TEMP_KEYCHAIN, ''login.keychain''])) (\<lambda>_.
     return ()))))"

text \<open>Lines 82 to 101: the export command, run at line 98 and again at line 101.\<close>

definition export_cmd :: "path \<Rightarrow> string option \<Rightarrow> string option list" where
  "export_cmd cwd EXPORT_PASS =
     [Some ''security'', Some ''export'',
      Some ''-k'', Some ''login.keychain'',
      Some ''-t'', Some ''identities'',
      Some ''-f'', Some ''pkcs12'',
      Some ''-P'', EXPORT_PASS,
      Some ''-o'', Some (OUTPUT_P12 cwd)]"

definition export_p12 :: "'x tool \<Rightarrow> path \<Rightarrow> string option \<Rightarrow> (proc_result, 'x) action" where
  "export_p12 tool cwd EXPORT_PASS =
     seq (run tool (export_cmd cwd EXPORT_PASS)) (\<lambda>result.
     run tool (export_cmd cwd EXPORT_PASS))"

text \<open>
  Lines 103 to 109:
  \<open>os.path.exists(OUTPUT_P12) and os.path.getsize(OUTPUT_P12) > 0\<close>, else \<open>sys.exit(1)\<close>.
\<close>

definition p12_nonempty :: "path \<Rightarrow> 'x world \<Rightarrow> bool" where
  "p12_nonempty cwd w =
     (case fs w (OUTPUT_P12 cwd) of None \<Rightarrow> False | Some content \<Rightarrow> 0 < length content)"

definition check_export :: "path \<Rightarrow> (unit, 'x) action" where
  "check_export cwd w = (if p12_nonempty cwd w then return () w else sys_exit 1 w)"

text \<open>Lines 112 to 135: the import into a keychain made for it, and its deletion.\<close>

definition delete_verify_cmd :: "string list" where
  "delete_verify_cmd = [''security'', ''delete-keychain'', VERIFY_KEYCHAIN]"

definition create_verify_cmd :: "string list" where
  "create_verify_cmd = [''security'', ''create-keychain'', ''-p'', ''verify'', VERIFY_KEYCHAIN]"

definition settings_verify_cmd :: "string list" where
  "settings_verify_cmd = [''security'', ''set-keychain-settings'', VERIFY_KEYCHAIN]"

definition verify_cmd :: "path \<Rightarrow> string option \<Rightarrow> string option list" where
  "verify_cmd cwd EXPORT_PASS =
     [Some ''security'', Some ''import'', Some (OUTPUT_P12 cwd),
      Some ''-k'', Some VERIFY_KEYCHAIN,
      Some ''-P'', EXPORT_PASS,
      Some ''-T'', Some ''/usr/bin/codesign'']"

definition verify_p12 :: "'x tool \<Rightarrow> path \<Rightarrow> string option \<Rightarrow> (unit, 'x) action" where
  "verify_p12 tool cwd EXPORT_PASS =
     seq (\<lambda>w. if path_exists w (abspath cwd VERIFY_KEYCHAIN)
              then seq (run tool (map Some delete_verify_cmd)) (\<lambda>_. return ()) w
              else return () w) (\<lambda>_.
     seq (run tool (map Some create_verify_cmd)) (\<lambda>_.
     seq (run tool (map Some settings_verify_cmd)) (\<lambda>_.
     seq (run tool (verify_cmd cwd EXPORT_PASS)) (\<lambda>verify_result.
     seq (run tool (map Some delete_verify_cmd)) (\<lambda>_.
     if returncode verify_result \<noteq> 0 then sys_exit 1 else return ())))))"

text \<open>
  The statements of the verification before the import (lines 113 to 118): where they
  return, the verification keychain has been set up and the import is next.
\<close>

definition verify_setup :: "'x tool \<Rightarrow> path \<Rightarrow> (unit, 'x) action" where
  "verify_setup tool cwd =
     seq (\<lambda>w. if path_exists w (abspath cwd VERIFY_KEYCHAIN)
              then seq (run tool (map Some delete_verify_cmd)) (\<lambda>_. return ()) w
              else return () w) (\<lambda>_.
     seq (run tool (map Some create_verify_cmd)) (\<lambda>_.
     seq (run tool (map Some settings_verify_cmd)) (\<lambda>_.
     return ())))"

text \<open>Lines 140 to 148: read the bundle, encode it, write the text.\<close>

definition encode_p12 :: "path \<Rightarrow> (unit, 'x) action" where
  "encode_p12 cwd =
     seq (read_bytes (OUTPUT_P12 cwd)) (\<lambda>content.
     write_text (OUTPUT_B64 cwd) (b64encode content))"

definition main :: "'x tool \<Rightarrow> path \<Rightarrow> string option \<Rightarrow> string option \<Rightarrow> (unit, 'x) action" where
  "main tool cwd EXPORT_PASS TEMP_PASS =
     seq (cleanup tool cwd) (\<lambda>_.
     seq (create_temp tool TEMP_PASS) (\<lambda>_.
     seq (export_p12 tool cwd EXPORT_PASS) (\<lambda>result.
     seq (check_export cwd) (\<lambda>_.
     seq (verify_p12 tool cwd EXPORT_PASS) (\<lambda>_.
     encode_p12 cwd)))))"

text \<open>
  The statements of \<open>main\<close> before the export (lines 49 to 63), and those before the
  verification (lines 49 to 109): where they return, the run has reached that stage.
\<close>

definition main_to_export :: "'x tool \<Rightarrow> path \<Rightarrow> string option \<Rightarrow> (unit, 'x) action" where
  "main_to_export tool cwd TEMP_PASS =
     seq (cleanup tool cwd) (\<lambda>_. create_temp tool TEMP_PASS)"

definition main_to_verify ::
  "'x tool \<Rightarrow> path \<Rightarrow> string option \<Rightarrow> string option \<Rightarrow> (unit, 'x) action" where
  "main_to_verify tool cwd EXPORT_PASS TEMP_PASS =
     seq (main_to_export tool cwd TEMP_PASS) (\<lambda>_.
     seq (export_p12 tool cwd EXPORT_PASS) (\<lambda>result.
     check_export cwd))"

section \<open>The script (lines 7--39 and 157--158)\<close>

definition script :: "'x tool \<Rightarrow> path \<Rightarrow> string list option \<Rightarrow> (unit, 'x) action" where
  "script tool cwd env_file w =
     (let env_vars = load_env env_file;
          TARGET_HASH = env_vars ''APPLE_CERT_HASH'';
          EXPORT_PASS = env_vars ''APPLE_CERT_EXPORT_PASS'';
          TEMP_PASS = env_vars ''APPLE_TEMP_KEYCHAIN_PASS''
      in if falsy TARGET_HASH \<or> falsy EXPORT_PASS then sys_exit 1 w
         else main tool cwd EXPORT_PASS TEMP_PASS w)"

section \<open>Stand-ins for the external utility\<close>

text \<open>A command that prints nothing and ends with the given status.\<close>

definition quiet :: "int \<Rightarrow> proc_output" where
  "quiet n = \<lparr>exit_code = n, out_text = Some [], err_text = Some []\<rparr>"

text \<open>
  For concrete runs: the export writes the given bytes to the path after \<open>-o\<close> (nothing
  when there are none), the import returns the given status, and every other command
  returns status 0 and changes nothing.
\<close>

definition stub_security :: "byte list option \<Rightarrow> int \<Rightarrow> unit tool" where
  "stub_security exported import_status args files x =
     (if take 2 args = [''security'', ''export'']
      then (case exported of
              None \<Rightarrow>
                (\<lparr>exit_code = 1, out_text = Some [], err_text = Some ''no identities''\<rparr>,
                 files, x)
            | Some content \<Rightarrow> (quiet 0, files(last args \<mapsto> content), x))
      else if take 2 args = [''security'', ''import'']
      then (quiet import_status, files, x)
      else (quiet 0, files, x))"

text \<open>
  A stand-in that keeps the list of keychains as its state: creating adds the keychain,
  deleting leaves the given output and removes the keychain if that output has status 0,
  the export writes three bytes, and the import leaves the given output.
\<close>

definition stub_keychains :: "proc_output \<Rightarrow> proc_output \<Rightarrow> string list tool" where
  "stub_keychains imported deleted args files keychains =
     (if take 2 args = [''security'', ''create-keychain'']
      then (quiet 0, files, last args # keychains)
      else if take 2 args = [''security'', ''delete-keychain'']
      then (deleted, files,
            if exit_code deleted = 0 then removeAll (last args) keychains else keychains)
      else if take 2 args = [''security'', ''export'']
      then (quiet 0, files(last args \<mapsto> [1, 2, 3]), keychains)
      else if take 2 args = [''security'', ''import'']
      then (imported, files, keychains)
      else (quiet 0, files, keychains))"

text \<open>A command that ends with status 1 and whose error output does not decode.\<close>

definition undecodable :: proc_output where
  "undecodable = \<lparr>exit_code = 1, out_text = Some [], err_text = None\<rparr>"

definition no_keychains :: "string list world" where
  "no_keychains = \<lparr>fs = Map.empty, ext = [], trace = []\<rparr>"

definition empty_world :: "unit world" where
  "empty_world = \<lparr>fs = Map.empty, ext = (), trace = []\<rparr>"

text \<open>What a run that got as far as the encoder leaves behind, with the files it checks for.\<close>

definition stale_world :: "unit world" where
  "stale_world =
     \<lparr>fs = [abspath ''/repo'' TEMP_KEYCHAIN \<mapsto> [0],
             abspath ''/repo'' VERIFY_KEYCHAIN \<mapsto> [0],
             OUTPUT_P12 ''/repo'' \<mapsto> [9],
             OUTPUT_B64 ''/repo'' \<mapsto> [65]],
      ext = (), trace = []\<rparr>"

definition full_config :: "string list option" where
  "full_config =
     Some [''APPLE_CERT_HASH=abc'', ''APPLE_CERT_EXPORT_PASS=pw'',
           ''APPLE_TEMP_KEYCHAIN_PASS=tp'']"

definition config_without_temp_pass :: "string list option" where
  "config_without_temp_pass = Some [''APPLE_CERT_HASH=abc'', ''APPLE_CERT_EXPORT_PASS=pw'']"


section \<open>Vocabulary for statements about the effects\<close>

text \<open>The argument lists of the export and of the import once the password is a string.\<close>

definition export_args :: "path \<Rightarrow> string \<Rightarrow> string list" where
  "export_args cwd ep =
     [''security'', ''export'', ''-k'', ''login.keychain'', ''-t'', ''identities'',
      ''-f'', ''pkcs12'', ''-P'', ep, ''-o'', OUTPUT_P12 cwd]"

definition import_args :: "path \<Rightarrow> string \<Rightarrow> string list" where
  "import_args cwd ep =
     [''security'', ''import'', OUTPUT_P12 cwd, ''-k'', VERIFY_KEYCHAIN, ''-P'', ep,
      ''-T'', ''/usr/bin/codesign'']"

definition create_temp_events :: "string \<Rightarrow> proc_output list \<Rightarrow> event list" where
  "create_temp_events tp rs =
     map2 Exec
       [[''security'', ''create-keychain'', ''-p'', tp, TEMP_KEYCHAIN],
        [''security'', ''set-keychain-settings'', TEMP_KEYCHAIN],
        [''security'', ''unlock-keychain'', ''-p'', tp, TEMP_KEYCHAIN],
        [''security'', ''list-keychains'', ''-d'', ''user'', ''-s'', TEMP_KEYCHAIN,
         ''login.keychain'']]
       rs"

definition verify_events :: "path \<Rightarrow> string \<Rightarrow> proc_output list \<Rightarrow> event list" where
  "verify_events cwd ep rs =
     map2 Exec
       [create_verify_cmd, settings_verify_cmd, import_args cwd ep, delete_verify_cmd]
       rs"

fun is_exec_of :: "string list \<Rightarrow> event \<Rightarrow> bool" where
  "is_exec_of args (Exec a r) = (a = args)"
| "is_exec_of args _ = False"

fun is_import :: "event \<Rightarrow> bool" where
  "is_import (Exec a r) = (take 2 a = [''security'', ''import''])"
| "is_import _ = False"

fun is_write :: "event \<Rightarrow> bool" where
  "is_write (Write p s) = True"
| "is_write _ = False"

section \<open>Properties of the configuration loader\<close>

lemma strip_by_all: "\<forall>c\<in>set s. p c \<Longrightarrow> strip_by p s = []"
  by (auto simp: strip_by_def dropWhile_eq_Nil_conv dest: set_dropWhileD)

text \<open>Characters of the stripped kind around a text do not change what is left of it.\<close>

lemma strip_by_ends:
  assumes l: "\<forall>c\<in>set l. p c" and r: "\<forall>c\<in>set r. p c"
  shows "strip_by p (l @ s @ r) = strip_by p s"
proof (cases "\<forall>c\<in>set s. p c")
  case True
  with l r have "\<forall>c\<in>set (l @ s @ r). p c" by auto
  then have "strip_by p (l @ s @ r) = []" by (rule strip_by_all)
  moreover from True have "strip_by p s = []" by (rule strip_by_all)
  ultimately show ?thesis by simp
next
  case False
  then obtain x where x: "x \<in> set s" "\<not> p x" by blast
  from l have "dropWhile p (l @ s @ r) = dropWhile p (s @ r)"
    by (simp add: dropWhile_append2)
  also from x have "\<dots> = dropWhile p s @ r"
    by (simp add: dropWhile_append1)
  finally have "rev (dropWhile p (l @ s @ r)) = rev r @ rev (dropWhile p s)"
    by simp
  moreover from r
  have "dropWhile p (rev r @ rev (dropWhile p s)) = dropWhile p (rev (dropWhile p s))"
    by (intro dropWhile_append2) auto
  ultimately show ?thesis by (simp add: strip_by_def)
qed

lemma strip_by_clean:
  assumes "s = [] \<or> (\<not> p (hd s) \<and> \<not> p (last s))"
  shows "strip_by p s = s"
proof (cases "s = []")
  case True
  then show ?thesis by (simp add: strip_by_def)
next
  case False
  with assms have h: "\<not> p (hd s)" and t: "\<not> p (last s)" by auto
  from False h have "dropWhile p s = s" by (cases s) auto
  moreover from False t have "dropWhile p (rev s) = rev s"
    by (cases "rev s") (auto simp: last_rev hd_rev dest: arg_cong[where f=hd])
  ultimately show ?thesis by (simp add: strip_by_def)
qed

text \<open>
  Every text splits into characters of the stripped kind, what stripping leaves, and
  characters of the stripped kind again; what is left neither begins nor ends with one.
\<close>

lemma strip_by_decompose:
  "\<exists>l r. s = l @ strip_by p s @ r \<and> (\<forall>c\<in>set l. p c) \<and> (\<forall>c\<in>set r. p c)
     \<and> (strip_by p s = [] \<or> (\<not> p (hd (strip_by p s)) \<and> \<not> p (last (strip_by p s))))"
proof -
  let ?rest = "dropWhile p s"
  let ?l = "takeWhile p s"
  let ?r = "rev (takeWhile p (rev ?rest))"
  let ?m = "strip_by p s"
  have m: "?m = rev (dropWhile p (rev ?rest))" by (simp add: strip_by_def)
  have "?m @ ?r = rev (takeWhile p (rev ?rest) @ dropWhile p (rev ?rest))"
    by (simp only: m rev_append)
  also have "\<dots> = rev (rev ?rest)" by (simp only: takeWhile_dropWhile_id)
  finally have rest: "?rest = ?m @ ?r" by simp
  have "s = ?l @ ?rest" by simp
  with rest have s: "s = ?l @ ?m @ ?r" by simp
  have l: "\<forall>c\<in>set ?l. p c" by (auto dest: set_takeWhileD)
  have r: "\<forall>c\<in>set ?r. p c" by (auto dest: set_takeWhileD)
  have c: "\<not> p (hd ?m) \<and> \<not> p (last ?m)" if ne: "?m \<noteq> []"
  proof
    from ne rest have "hd ?m = hd ?rest" by (metis hd_append2)
    moreover from ne rest have "?rest \<noteq> []" by (metis append_is_Nil_conv)
    ultimately show "\<not> p (hd ?m)" using hd_dropWhile[of p s] by simp
    from ne have "dropWhile p (rev ?rest) \<noteq> []" by (simp add: m)
    then have "\<not> p (hd (dropWhile p (rev ?rest)))" by (rule hd_dropWhile)
    moreover from ne have "last ?m = hd (dropWhile p (rev ?rest))"
      by (simp add: m last_rev)
    ultimately show "\<not> p (last ?m)" by simp
  qed
  from s l r c show ?thesis by blast
qed

lemma is_quote_not_newline: "is_quote c \<Longrightarrow> c \<noteq> CHR 0x0A"
  by (auto simp: is_quote_def quote_chars_def)

lemma match_kv_split:
  assumes "key \<noteq> []" "CHR ''='' \<notin> set key" "CHR 0x0A \<notin> set v"
  shows "match_kv (key @ ''='' @ v) = Some (key, v)"
proof -
  have "takeWhile (\<lambda>c. c \<noteq> CHR ''='') (key @ CHR ''='' # v) = key"
    using assms(2) by (subst takeWhile_append2) auto
  moreover have "dropWhile (\<lambda>c. c \<noteq> CHR ''='') (key @ CHR ''='' # v) = CHR ''='' # v"
    using assms(2) by (subst dropWhile_append2) auto
  ultimately show ?thesis using assms(1,3) by (simp add: match_kv_def)
qed

text \<open>A line that is neither blank nor a comment and has the form key, equals sign, value.\<close>

lemma load_line_kv:
  assumes "strip_ws raw = key @ ''='' @ v" "key \<noteq> []" "CHR ''='' \<notin> set key"
    "hd key \<noteq> CHR ''#''" "CHR 0x0A \<notin> set v"
  shows "load_line raw env = env(key \<mapsto> strip_quotes v)"
proof -
  from assms(2,4) have "take 1 (key @ ''='' @ v) \<noteq> ''#''" by (cases key) auto
  with assms show ?thesis
    by (simp add: load_line_def match_kv_split[simplified])
qed

text \<open>A key that no line of the file defines is not in the dictionary.\<close>

lemma load_line_other:
  assumes "\<forall>v. match_kv (strip_ws raw) \<noteq> Some (k, v)"
  shows "load_line raw env k = env k"
  using assms by (auto simp: load_line_def Let_def split: option.splits)

lemma fold_load_line_absent:
  assumes "\<forall>raw\<in>set ls. \<forall>v. match_kv (strip_ws raw) \<noteq> Some (k, v)"
  shows "fold load_line ls env k = env k"
  using assms
proof (induction ls arbitrary: env)
  case Nil
  then show ?case by simp
next
  case (Cons raw ls)
  then have "fold load_line ls (load_line raw env) k = load_line raw env k" by simp
  also from Cons.prems have "\<dots> = env k" by (simp add: load_line_other)
  finally show ?case by simp
qed

lemma load_env_absent:
  assumes "\<forall>raw\<in>set ls. \<forall>v. match_kv (strip_ws raw) \<noteq> Some (k, v)"
  shows "load_env (Some ls) k = None"
  using fold_load_line_absent[OF assms, of Map.empty] by (simp add: load_env_def)

lemmas loader_defs =
  load_env_def load_line_def strip_ws_def strip_quotes_def strip_by_def is_space_def
  is_quote_def quote_chars_def match_kv_def

text \<open>
  Claim C7, as the code has it. For a line of the form key, equals sign, value, where the
  value is a text between two equal quote characters (both single or both double), the
  dictionary gets the inner text with every quote character at its own two ends removed as
  well. It is the inner text itself whenever the inner text neither begins nor ends with
  a quote character.
\<close>

theorem quoted_value_stored_stripped:
  assumes "strip_ws raw = key @ ''='' @ [q] @ inner @ [q]"
    and "is_quote q"
    and "key \<noteq> []" and "CHR ''='' \<notin> set key" and "hd key \<noteq> CHR ''#''"
    and "CHR 0x0A \<notin> set inner"
  shows "load_line raw env = env(key \<mapsto> strip_quotes inner)
       \<and> ((inner = [] \<or> (\<not> is_quote (hd inner) \<and> \<not> is_quote (last inner)))
            \<longrightarrow> load_line raw env = env(key \<mapsto> inner))"
proof -
  from assms(2) have nl: "q \<noteq> CHR 0x0A" by (rule is_quote_not_newline)
  with assms(6) have "CHR 0x0A \<notin> set ([q] @ inner @ [q])" by simp
  with assms have "load_line raw env = env(key \<mapsto> strip_quotes ([q] @ inner @ [q]))"
    by (intro load_line_kv) auto
  moreover from assms(2) have "strip_quotes ([q] @ inner @ [q]) = strip_quotes inner"
    unfolding strip_quotes_def by (intro strip_by_ends) auto
  ultimately have stored: "load_line raw env = env(key \<mapsto> strip_quotes inner)" by simp
  have "strip_quotes inner = inner"
    if "inner = [] \<or> (\<not> is_quote (hd inner) \<and> \<not> is_quote (last inner))"
    using that unfolding strip_quotes_def by (rule strip_by_clean)
  with stored show ?thesis by auto
qed

theorem quoted_value_stored_stripped_witness:
  "strip_ws (''KEY='' @ [CHR 0x22] @ ''a b'' @ [CHR 0x22]) = ''KEY='' @ [CHR 0x22] @ ''a b'' @ [CHR 0x22]
   \<and> is_quote (CHR 0x22) \<and> ''KEY'' \<noteq> [] \<and> CHR ''='' \<notin> set ''KEY'' \<and> hd ''KEY'' \<noteq> CHR ''#''
   \<and> CHR 0x0A \<notin> set ''a b''
   \<and> \<not> is_quote (hd ''a b'') \<and> \<not> is_quote (last ''a b'')
   \<and> load_line (''KEY='' @ [CHR 0x22] @ ''a b'' @ [CHR 0x22]) Map.empty = [''KEY'' \<mapsto> ''a b'']"
  using quoted_value_stored_stripped [of "''KEY='' @ [CHR 0x22] @ ''a b'' @ [CHR 0x22]"
      "''KEY''" "CHR 0x22" "''a b''" Map.empty]
  by (simp add: strip_ws_def strip_quotes_def strip_by_def is_space_def is_quote_def
      quote_chars_def)

text \<open>
  Claim C7 as it is written fails where the inner text itself ends in a quote character:
  the line \<open>K="'a'"\<close> has the inner text \<open>'a'\<close> between double quotes, and \<open>a\<close> is stored.
\<close>

theorem quoted_value_counterexample:
  "load_line (''K='' @ [CHR 0x22] @ [CHR 0x27, CHR ''a'', CHR 0x27] @ [CHR 0x22]) Map.empty ''K''
     = Some ''a''
   \<and> load_line (''K='' @ [CHR 0x22] @ [CHR 0x27, CHR ''a'', CHR 0x27] @ [CHR 0x22]) Map.empty ''K''
     \<noteq> Some [CHR 0x27, CHR ''a'', CHR 0x27]"
  by (simp add: loader_defs)

text \<open>
  Claim C10. For a line of the form key, equals sign, value: whatever quote characters,
  single or double, in any number and mix, stand at the two ends of the value are removed,
  and the text between them, which neither begins nor ends with a quote character, is
  stored as it is, with the quote characters inside it.
\<close>

theorem end_quotes_removed_interior_kept:
  assumes "strip_ws raw = key @ ''='' @ ql @ mid @ qr"
    and "key \<noteq> []" and "CHR ''='' \<notin> set key" and "hd key \<noteq> CHR ''#''"
    and "CHR 0x0A \<notin> set mid"
    and "\<forall>c\<in>set ql. is_quote c" and "\<forall>c\<in>set qr. is_quote c"
    and "mid = [] \<or> (\<not> is_quote (hd mid) \<and> \<not> is_quote (last mid))"
  shows "load_line raw env = env(key \<mapsto> mid)"
proof -
  from assms(5,6,7) have "CHR 0x0A \<notin> set (ql @ mid @ qr)"
    by (auto dest: is_quote_not_newline)
  with assms have "load_line raw env = env(key \<mapsto> strip_quotes (ql @ mid @ qr))"
    by (intro load_line_kv) auto
  moreover from assms(6,7) have "strip_quotes (ql @ mid @ qr) = strip_quotes mid"
    unfolding strip_quotes_def by (rule strip_by_ends)
  moreover from assms(8) have "strip_quotes mid = mid"
    unfolding strip_quotes_def by (rule strip_by_clean)
  ultimately show ?thesis by simp
qed

theorem end_quotes_removed_interior_kept_witness:
  "strip_ws (''K='' @ [CHR 0x22] @ [CHR ''a'', CHR 0x27, CHR ''b''] @ [CHR 0x27])
     = ''K='' @ [CHR 0x22] @ [CHR ''a'', CHR 0x27, CHR ''b''] @ [CHR 0x27]
   \<and> ''K'' \<noteq> [] \<and> CHR ''='' \<notin> set ''K'' \<and> hd ''K'' \<noteq> CHR ''#''
   \<and> CHR 0x0A \<notin> set [CHR ''a'', CHR 0x27, CHR ''b'']
   \<and> is_quote (CHR 0x22) \<and> is_quote (CHR 0x27)
   \<and> \<not> is_quote (hd [CHR ''a'', CHR 0x27, CHR ''b''])
   \<and> \<not> is_quote (last [CHR ''a'', CHR 0x27, CHR ''b''])
   \<and> load_line (''K='' @ [CHR 0x22] @ [CHR ''a'', CHR 0x27, CHR ''b''] @ [CHR 0x27]) Map.empty
       = [''K'' \<mapsto> [CHR ''a'', CHR 0x27, CHR ''b'']]"
  using end_quotes_removed_interior_kept [of
      "''K='' @ [CHR 0x22] @ [CHR ''a'', CHR 0x27, CHR ''b''] @ [CHR 0x27]"
      "''K''" "[CHR 0x22]" "[CHR ''a'', CHR 0x27, CHR ''b'']" "[CHR 0x27]" Map.empty]
  by (simp add: strip_ws_def strip_by_def is_space_def is_quote_def quote_chars_def)

section \<open>Properties of the configuration check\<close>

text \<open>
  Claim C2. When the dictionary lacks the certificate hash or the export password, the
  script stops with \<open>sys.exit(1)\<close> and leaves the environment as it found it: the list of
  effects is unchanged, so no external command has run. The exit status is 1.
\<close>

theorem missing_required_key_exits:
  assumes "load_env env_file ''APPLE_CERT_HASH'' = None
         \<or> load_env env_file ''APPLE_CERT_EXPORT_PASS'' = None"
  shows "script tool cwd env_file w = (Inl (SystemExit 1), w)
       \<and> exit_status (fst (script tool cwd env_file w)) = 1"
  using assms by (auto simp: script_def Let_def falsy_def sys_exit_def exit_status_def)

lemma load_env_example:
  "load_env (Some [''APPLE_CERT_HASH=abc'']) ''APPLE_CERT_EXPORT_PASS'' = None"
  by (simp add: loader_defs)

theorem missing_required_key_exits_witness:
  "(load_env (Some [''APPLE_CERT_HASH=abc'']) ''APPLE_CERT_HASH'' = None
     \<or> load_env (Some [''APPLE_CERT_HASH=abc'']) ''APPLE_CERT_EXPORT_PASS'' = None)
   \<and> script (stub_security (Some [1, 2, 3]) 0) ''/repo'' (Some [''APPLE_CERT_HASH=abc''])
        empty_world = (Inl (SystemExit 1), empty_world)
   \<and> trace (snd (script (stub_security (Some [1, 2, 3]) 0) ''/repo''
        (Some [''APPLE_CERT_HASH=abc'']) empty_world)) = []"
  using missing_required_key_exits [of "Some [''APPLE_CERT_HASH=abc'']"
      "stub_security (Some [1, 2, 3]) 0" "''/repo''" empty_world] load_env_example
  by (simp add: empty_world_def)

section \<open>Base64 round trip\<close>

lemma b64_alphabet_length: "length b64_alphabet = 64"
  by (simp add: b64_alphabet_def)

lemma b64_alphabet_distinct: "distinct b64_alphabet"
  by (simp add: b64_alphabet_def)

lemma b64_index_char: "i < 64 \<Longrightarrow> b64_index (b64_char i) = Some i"
  using map_of_zip_nth[of b64_alphabet "[0..<64]" i]
  by (simp add: b64_index_def b64_char_def b64_alphabet_length b64_alphabet_distinct)

lemma b64_char_not_pad: "i < 64 \<Longrightarrow> b64_char i \<noteq> CHR ''=''"
proof -
  assume "i < 64"
  then have "b64_char i \<in> set b64_alphabet"
    by (simp add: b64_char_def b64_alphabet_length)
  moreover have "CHR ''='' \<notin> set b64_alphabet" by (simp add: b64_alphabet_def)
  ultimately show ?thesis by auto
qed

lemma byte_bound: "unat (a :: byte) < 256"
  using unsigned_less[of a, where 'a=nat] by simp

lemma byte_of_unat: "word_of_nat (unat (a :: byte)) = a"
  by simp

lemma sextets:
  fixes a b c :: nat
  assumes "a < 256" "b < 256" "c < 256"
  shows "a div 4 < 64" "(a mod 4) * 16 + b div 16 < 64" "(b mod 16) * 4 + c div 64 < 64"
    "c mod 64 < 64" "(a mod 4) * 16 < 64" "(b mod 16) * 4 < 64"
  using assms by simp_all

lemma regroup:
  fixes a b c :: nat
  assumes "a < 256" "b < 256" "c < 256"
  shows "(a div 4) * 4 + ((a mod 4) * 16 + b div 16) div 16 = a"
    "(((a mod 4) * 16 + b div 16) mod 16) * 16 + ((b mod 16) * 4 + c div 64) div 4 = b"
    "(((b mod 16) * 4 + c div 64) mod 4) * 64 + c mod 64 = c"
    "(a div 4) * 4 + ((a mod 4) * 16) div 16 = a"
    "(((a mod 4) * 16 + b div 16) mod 16) * 16 + ((b mod 16) * 4) div 4 = b"
  using assms by simp_all

lemma b64_roundtrip: "b64decode (b64encode bs) = Some bs"
proof (induction bs rule: b64encode.induct)
  case (1 a b c rest)
  note bd = byte_bound[of a] byte_bound[of b] byte_bound[of c]
  have idx: "b64_index (b64_char (unat a div 4)) = Some (unat a div 4)"
    "b64_index (b64_char ((unat a mod 4) * 16 + unat b div 16)) = Some ((unat a mod 4) * 16 + unat b div 16)"
    "b64_index (b64_char ((unat b mod 16) * 4 + unat c div 64)) = Some ((unat b mod 16) * 4 + unat c div 64)"
    "b64_index (b64_char (unat c mod 64)) = Some (unat c mod 64)"
    using sextets(1-4)[OF bd] by (simp_all only: b64_index_char)
  have np: "b64_char ((unat b mod 16) * 4 + unat c div 64) \<noteq> CHR ''=''"
    "b64_char (unat c mod 64) \<noteq> CHR ''=''"
    using sextets(3-4)[OF bd] by (simp_all only: b64_char_not_pad not_False_eq_True)
  show ?case
    by (simp only: b64encode.simps b64decode.simps append_Cons append_Nil idx np prod.case
        option.case if_False simp_thms "1.IH" regroup(1-3)[OF bd] byte_of_unat)
next
  case (2 a b)
  note bd = byte_bound[of a] byte_bound[of b] byte_bound[of b]
  have idx: "b64_index (b64_char (unat a div 4)) = Some (unat a div 4)"
    "b64_index (b64_char ((unat a mod 4) * 16 + unat b div 16)) = Some ((unat a mod 4) * 16 + unat b div 16)"
    "b64_index (b64_char ((unat b mod 16) * 4)) = Some ((unat b mod 16) * 4)"
    using sextets[OF bd] by (simp_all only: b64_index_char)
  have np: "b64_char ((unat b mod 16) * 4) \<noteq> CHR ''=''"
    using sextets(6)[OF bd] by (simp_all only: b64_char_not_pad not_False_eq_True)
  show ?case
    by (simp only: b64encode.simps b64decode.simps idx np prod.case
        option.case if_False if_True simp_thms regroup[OF bd] byte_of_unat)
next
  case (3 a)
  note bd = byte_bound[of a] byte_bound[of a] byte_bound[of a]
  have idx: "b64_index (b64_char (unat a div 4)) = Some (unat a div 4)"
    "b64_index (b64_char ((unat a mod 4) * 16)) = Some ((unat a mod 4) * 16)"
    using sextets[OF bd] by (simp_all only: b64_index_char)
  show ?case
    by (simp only: b64encode.simps b64decode.simps idx prod.case
        option.case if_False if_True simp_thms regroup[OF bd] byte_of_unat)
next
  case 4
  show ?case by simp
qed

section \<open>Sequencing and the runner\<close>

lemma those_map_Some: "those (map Some xs) = Some xs"
  by (induction xs) simp_all

lemma seq_InrD:
  assumes "seq m f w = (Inr b, w'')"
  obtains a w' where "m w = (Inr a, w')" "f a w' = (Inr b, w'')"
  using assms by (auto simp: seq_def split: prod.splits sum.splits)

lemma seq_assoc: "seq (seq m f) g = seq m (\<lambda>a. seq (f a) g)"
  by (rule ext) (simp add: seq_def split: prod.splits sum.splits)

lemma seq_return: "seq (return a) f = f a"
  by (rule ext) (simp add: seq_def return_def)

lemma pair_fstI: "fst p = a \<Longrightarrow> p = (a, snd p)"
  by (cases p) simp

text \<open>What a call of \<open>run\<close> that returned has done.\<close>

lemma run_Inr:
  assumes "run tool cmd w = (Inr r, w')"
  shows "\<exists>args. those cmd = Some args \<and> args \<noteq> [] \<and> CHR 0x00 \<notin> set (concat args)
           \<and> trace w' = trace w @ [Exec args (fst (tool args (fs w) (ext w)))]
           \<and> returncode r = exit_code (fst (tool args (fs w) (ext w)))
           \<and> out_text (fst (tool args (fs w) (ext w))) = Some (stdout r)
           \<and> err_text (fst (tool args (fs w) (ext w))) = Some (stderr r)"
  using assms
  by (auto simp: run_def subprocess_run_def split: option.splits if_splits prod.splits)

text \<open>
  A command that can be started runs and is recorded; the call then returns its result
  or raises on output that does not decode.
\<close>

lemma run_started:
  assumes "those cmd = Some args" "args \<noteq> []" "CHR 0x00 \<notin> set (concat args)"
  shows "\<exists>res. run tool cmd w
            = (res, w\<lparr>fs := fst (snd (tool args (fs w) (ext w))),
                      ext := snd (snd (tool args (fs w) (ext w))),
                      trace := trace w @ [Exec args (fst (tool args (fs w) (ext w)))]\<rparr>)
         \<and> (res = Inl (Raised UnicodeDecodeError)
            \<or> (\<exists>r. res = Inr r \<and> returncode r = exit_code (fst (tool args (fs w) (ext w)))))"
  using assms
  by (auto simp: run_def subprocess_run_def split: option.splits prod.splits)

text \<open>A call of \<open>run\<close> that raises before the command is started changes nothing.\<close>

lemma run_any:
  "\<exists>res w'. run tool cmd w = (res, w')
     \<and> ((\<exists>e. res = Inl (Raised e)) \<and> w' = w
        \<or> (\<exists>args. those cmd = Some args
              \<and> trace w' = trace w @ [Exec args (fst (tool args (fs w) (ext w)))]))"
  by (auto simp: run_def subprocess_run_def split: option.splits prod.splits)

lemma delete_temp_cmd_startable:
  "delete_temp_cmd \<noteq> [] \<and> CHR 0x00 \<notin> set (concat delete_temp_cmd)"
  by (simp add: delete_temp_cmd_def TEMP_KEYCHAIN_def)

lemma verify_cmds_startable:
  "delete_verify_cmd \<noteq> [] \<and> CHR 0x00 \<notin> set (concat delete_verify_cmd)"
  "create_verify_cmd \<noteq> [] \<and> CHR 0x00 \<notin> set (concat create_verify_cmd)"
  "settings_verify_cmd \<noteq> [] \<and> CHR 0x00 \<notin> set (concat settings_verify_cmd)"
  by (simp_all add: delete_verify_cmd_def create_verify_cmd_def settings_verify_cmd_def
      VERIFY_KEYCHAIN_def)
section \<open>The stages\<close>

text \<open>
  The cleaning, whatever its outcome: its effects are the deletion of the temporary
  keychain if the path exists and then at most the removal of the bundle. It returns with
  the bundle gone, or it stops at the deletion on output that does not decode.
\<close>

lemma cleanup_result:
  "\<exists>res wc rm. cleanup tool cwd w = (res, wc)
     \<and> trace wc = trace w
         @ (if path_exists w (abspath cwd TEMP_KEYCHAIN)
            then [Exec delete_temp_cmd (fst (tool delete_temp_cmd (fs w) (ext w)))] else [])
         @ rm
     \<and> (rm = [] \<or> rm = [Remove (OUTPUT_P12 cwd)])
     \<and> (res = Inr () \<and> fs wc (OUTPUT_P12 cwd) = None
        \<or> res = Inl (Raised UnicodeDecodeError) \<and> rm = [])"
proof -
  let ?pre = "if path_exists w (abspath cwd TEMP_KEYCHAIN)
            then [Exec delete_temp_cmd (fst (tool delete_temp_cmd (fs w) (ext w)))] else []"
  let ?first = "\<lambda>w. if path_exists w (abspath cwd TEMP_KEYCHAIN)
              then seq (run tool (map Some delete_temp_cmd)) (\<lambda>_. return ()) w
              else return () w"
  obtain res1 w1 where w1: "?first w = (res1, w1)" "trace w1 = trace w @ ?pre"
    "res1 = Inr () \<or> res1 = Inl (Raised UnicodeDecodeError)"
  proof (cases "path_exists w (abspath cwd TEMP_KEYCHAIN)")
    case True
    from run_started[OF those_map_Some, of delete_temp_cmd tool w] delete_temp_cmd_startable
    obtain res w' where r: "run tool (map Some delete_temp_cmd) w = (res, w')"
      "trace w' = trace w @ [Exec delete_temp_cmd (fst (tool delete_temp_cmd (fs w) (ext w)))]"
      "res = Inl (Raised UnicodeDecodeError) \<or> (\<exists>r. res = Inr r)"
      by auto
    from r(3) show ?thesis
    proof
      assume "res = Inl (Raised UnicodeDecodeError)"
      with True r(1,2) show ?thesis
        by (intro that[of "Inl (Raised UnicodeDecodeError)" w']) (simp_all add: seq_def)
    next
      assume "\<exists>r. res = Inr r"
      with True r(1,2) show ?thesis
        by (intro that[of "Inr ()" w']) (auto simp: seq_def return_def)
    qed
  next
    case False
    then show ?thesis by (intro that[of "Inr ()" w]) (simp_all add: return_def)
  qed
  from w1(3) show ?thesis
  proof
    assume ok: "res1 = Inr ()"
    show ?thesis
    proof (cases "fs w1 (OUTPUT_P12 cwd)")
      case None
      with w1(1) ok have "cleanup tool cwd w = (Inr (), w1)"
        by (simp add: cleanup_def seq_def path_exists_def return_def)
      with w1(2) None show ?thesis by auto
    next
      case (Some content)
      let ?wc = "w1\<lparr>fs := (fs w1)(OUTPUT_P12 cwd := None),
                     trace := trace w1 @ [Remove (OUTPUT_P12 cwd)]\<rparr>"
      from Some w1(1) ok have "cleanup tool cwd w = (Inr (), ?wc)"
        by (simp add: cleanup_def seq_def path_exists_def os_remove_def)
      moreover from w1(2) have "trace ?wc = trace w @ ?pre @ [Remove (OUTPUT_P12 cwd)]"
        by simp
      moreover have "fs ?wc (OUTPUT_P12 cwd) = None" by simp
      ultimately show ?thesis by blast
    qed
  next
    assume "res1 = Inl (Raised UnicodeDecodeError)"
    with w1(1) have "cleanup tool cwd w = (Inl (Raised UnicodeDecodeError), w1)"
      by (simp add: cleanup_def seq_def)
    with w1(2) show ?thesis by auto
  qed
qed

lemma create_temp_None: "create_temp tool None w = (Inl (Raised TypeError), w)"
  by (simp add: create_temp_def seq_def run_def)

text \<open>Where the setting up of the temporary keychain returns, its four commands have run.\<close>

lemma create_temp_returns:
  assumes "create_temp tool TP w = (Inr (), w')"
  shows "\<exists>tp rs. TP = Some tp \<and> trace w' = trace w @ create_temp_events tp rs \<and> length rs = 4"
proof -
  from assms obtain tp where tp: "TP = Some tp"
    by (cases TP) (simp_all add: create_temp_None)
  from assms obtain r1 w1 where 1: "run tool [Some ''security'', Some ''create-keychain'',
      Some ''-p'', TP, Some TEMP_KEYCHAIN] w = (Inr r1, w1)"
    and c1: "seq (run tool (map Some [''security'', ''set-keychain-settings'', TEMP_KEYCHAIN]))
      (\<lambda>_. seq (run tool [Some ''security'', Some ''unlock-keychain'', Some ''-p'', TP,
                    Some TEMP_KEYCHAIN])
      (\<lambda>_. seq (run tool (map Some [''security'', ''list-keychains'', ''-d'', ''user'', ''-s'',
                              TEMP_KEYCHAIN, ''login.keychain'']))
      (\<lambda>_. return ()))) w1 = (Inr (), w')"
    unfolding create_temp_def by (rule seq_InrD)
  from c1 obtain r2 w2 where 2: "run tool (map Some [''security'', ''set-keychain-settings'',
      TEMP_KEYCHAIN]) w1 = (Inr r2, w2)"
    and c2: "seq (run tool [Some ''security'', Some ''unlock-keychain'', Some ''-p'', TP,
                    Some TEMP_KEYCHAIN])
      (\<lambda>_. seq (run tool (map Some [''security'', ''list-keychains'', ''-d'', ''user'', ''-s'',
                              TEMP_KEYCHAIN, ''login.keychain'']))
      (\<lambda>_. return ())) w2 = (Inr (), w')"
    by (rule seq_InrD)
  from c2 obtain r3 w3 where 3: "run tool [Some ''security'', Some ''unlock-keychain'',
      Some ''-p'', TP, Some TEMP_KEYCHAIN] w2 = (Inr r3, w3)"
    and c3: "seq (run tool (map Some [''security'', ''list-keychains'', ''-d'', ''user'', ''-s'',
                              TEMP_KEYCHAIN, ''login.keychain'']))
      (\<lambda>_. return ()) w3 = (Inr (), w')"
    by (rule seq_InrD)
  from c3 obtain r4 w4 where 4: "run tool (map Some [''security'', ''list-keychains'', ''-d'',
      ''user'', ''-s'', TEMP_KEYCHAIN, ''login.keychain'']) w3 = (Inr r4, w4)"
    and c4: "return () w4 = (Inr (), w')"
    by (rule seq_InrD)
  from c4 have w4: "w4 = w'" by (simp add: return_def)
  from run_Inr[OF 1] tp obtain o1 where
    t1: "trace w1 = trace w @ [Exec [''security'', ''create-keychain'', ''-p'', tp, TEMP_KEYCHAIN] o1]"
    by auto
  from run_Inr[OF 2] obtain o2 where
    t2: "trace w2 = trace w1 @ [Exec [''security'', ''set-keychain-settings'', TEMP_KEYCHAIN] o2]"
    by (auto simp: those_map_Some)
  from run_Inr[OF 3] tp obtain o3 where
    t3: "trace w3 = trace w2 @ [Exec [''security'', ''unlock-keychain'', ''-p'', tp, TEMP_KEYCHAIN] o3]"
    by auto
  from run_Inr[OF 4] obtain o4 where
    t4: "trace w4 = trace w3 @ [Exec [''security'', ''list-keychains'', ''-d'', ''user'', ''-s'',
                              TEMP_KEYCHAIN, ''login.keychain''] o4]"
    by (auto simp: those_map_Some)
  have "trace w' = trace w @ create_temp_events tp [o1, o2, o3, o4]"
    using t1 t2 t3 t4 w4 by (simp add: create_temp_events_def)
  with tp show ?thesis by (intro exI[of _ tp] exI[of _ "[o1, o2, o3, o4]"]) simp
qed

lemma export_p12_None: "export_p12 tool cwd None w = (Inl (Raised TypeError), w)"
  by (simp add: export_p12_def export_cmd_def seq_def run_def)

lemma export_cmd_those: "those (export_cmd cwd (Some ep)) = Some (export_args cwd ep)"
  by (simp add: export_cmd_def export_args_def)

lemma verify_cmd_those: "those (verify_cmd cwd (Some ep)) = Some (import_args cwd ep)"
  by (simp add: verify_cmd_def import_args_def)

text \<open>Where the export returns, its command has run twice.\<close>

lemma export_p12_returns:
  assumes "export_p12 tool cwd EP w = (Inr result, w')"
  shows "\<exists>ep r1 r2. EP = Some ep
     \<and> trace w' = trace w @ [Exec (export_args cwd ep) r1, Exec (export_args cwd ep) r2]"
proof -
  from assms obtain ep where ep: "EP = Some ep"
    by (cases EP) (simp_all add: export_p12_None)
  from assms obtain r1 w1 where 1: "run tool (export_cmd cwd EP) w = (Inr r1, w1)"
    and 2: "run tool (export_cmd cwd EP) w1 = (Inr result, w')"
    unfolding export_p12_def by (rule seq_InrD)
  from run_Inr[OF 1] ep obtain o1 where
    t1: "trace w1 = trace w @ [Exec (export_args cwd ep) o1]"
    by (auto simp: export_cmd_those)
  from run_Inr[OF 2] ep obtain o2 where
    t2: "trace w' = trace w1 @ [Exec (export_args cwd ep) o2]"
    by (auto simp: export_cmd_those)
  from ep t1 t2 show ?thesis by simp
qed

lemma main_split:
  "main tool cwd EP TP =
     seq (main_to_verify tool cwd EP TP) (\<lambda>_.
     seq (verify_p12 tool cwd EP) (\<lambda>_. encode_p12 cwd))"
  by (simp add: main_def main_to_verify_def main_to_export_def seq_assoc)

lemma main_from_export:
  "main tool cwd EP TP =
     seq (main_to_export tool cwd TP) (\<lambda>_.
     seq (export_p12 tool cwd EP) (\<lambda>result.
     seq (check_export cwd) (\<lambda>_.
     seq (verify_p12 tool cwd EP) (\<lambda>_. encode_p12 cwd))))"
  by (simp add: main_def main_to_export_def seq_assoc)

lemma verify_split:
  "verify_p12 tool cwd EP =
     seq (verify_setup tool cwd) (\<lambda>_.
     seq (run tool (verify_cmd cwd EP)) (\<lambda>verify_result.
     seq (run tool (map Some delete_verify_cmd)) (\<lambda>_.
     if returncode verify_result \<noteq> 0 then sys_exit 1 else return ())))"
  by (simp add: verify_p12_def verify_setup_def seq_assoc seq_return)

text \<open>Where the run reaches the export, these are its effects so far.\<close>

lemma main_to_export_result:
  assumes "main_to_export tool cwd TP w = (Inr (), w1)"
  shows "\<exists>tp rm rs. TP = Some tp
     \<and> trace w1 = trace w
         @ (if path_exists w (abspath cwd TEMP_KEYCHAIN)
            then [Exec delete_temp_cmd (fst (tool delete_temp_cmd (fs w) (ext w)))] else [])
         @ rm @ create_temp_events tp rs
     \<and> (rm = [] \<or> rm = [Remove (OUTPUT_P12 cwd)]) \<and> length rs = 4"
proof -
  from assms obtain u wc where c: "cleanup tool cwd w = (Inr u, wc)"
    and ct: "create_temp tool TP wc = (Inr (), w1)"
    unfolding main_to_export_def by (rule seq_InrD)
  from cleanup_result[of tool cwd w] c obtain rm where rm:
    "trace wc = trace w
       @ (if path_exists w (abspath cwd TEMP_KEYCHAIN)
          then [Exec delete_temp_cmd (fst (tool delete_temp_cmd (fs w) (ext w)))] else [])
       @ rm"
    "rm = [] \<or> rm = [Remove (OUTPUT_P12 cwd)]"
    by auto
  from create_temp_returns[OF ct] obtain tp rs where
    "TP = Some tp" "trace w1 = trace wc @ create_temp_events tp rs" "length rs = 4"
    by blast
  with rm show ?thesis by auto
qed

lemma main_to_verify_result:
  assumes "main_to_verify tool cwd EP TP w0 = (Inr (), wv)"
  shows "\<exists>ep. EP = Some ep"
proof -
  from assms obtain u w1
    where "seq (export_p12 tool cwd EP) (\<lambda>result. check_export cwd) w1 = (Inr (), wv)"
    unfolding main_to_verify_def by (rule seq_InrD)
  then obtain r w2 where "export_p12 tool cwd EP w1 = (Inr r, w2)" by (rule seq_InrD)
  then show ?thesis by (cases EP) (simp_all add: export_p12_None)
qed

lemma output_paths_differ: "OUTPUT_P12 cwd \<noteq> OUTPUT_B64 cwd"
  by (simp add: OUTPUT_P12_def OUTPUT_B64_def abspath_def)

lemma encode_p12_result:
  assumes "encode_p12 cwd w = (Inr (), w')"
  shows "\<exists>content. fs w (OUTPUT_P12 cwd) = Some content
       \<and> w' = w\<lparr>fs := (fs w)(OUTPUT_B64 cwd \<mapsto> encode_utf8 (b64encode content)),
                trace := trace w @ [Write (OUTPUT_B64 cwd) (b64encode content)]\<rparr>"
  using assms
  by (cases "fs w (OUTPUT_P12 cwd)")
     (auto simp: encode_p12_def seq_def read_bytes_def write_text_def)

lemma length4: "length rs = 4 \<Longrightarrow> \<exists>a b c d. rs = [a, b, c, d]"
  by (auto simp: length_Suc_conv numeral_eq_Suc)

lemma create_temp_events_quiet:
  assumes "length rs = 4" "e \<in> set (create_temp_events tp rs)"
  shows "\<not> is_exec_of create_verify_cmd e \<and> \<not> is_import e \<and> \<not> is_write e"
proof -
  from assms(1) obtain a b c d where "rs = [a, b, c, d]" using length4 by blast
  with assms(2) show ?thesis
    by (auto simp: create_temp_events_def create_verify_cmd_def TEMP_KEYCHAIN_def
        VERIFY_KEYCHAIN_def)
qed

text \<open>Without the password of the temporary keychain, \<open>main\<close> stops in the runner.\<close>

lemma main_without_temp_pass:
  assumes "cleanup tool cwd w = (Inr (), wc)"
  shows "main tool cwd EP None w = (Inl (Raised TypeError), wc)"
  using assms by (simp add: main_def seq_def create_temp_None)

text \<open>
  The setting up of the verification keychain, whatever its outcome: the old keychain is
  deleted first if its path exists, then the new one is created and its settings are
  set. It stops early only on output that does not decode.
\<close>

lemma length2: "length rs = 2 \<Longrightarrow> \<exists>a b. rs = [a, b]"
  by (auto simp: length_Suc_conv numeral_eq_Suc)

lemma verify_setup_result:
  "\<exists>res ws rs. verify_setup tool cwd w = (res, ws)
     \<and> trace ws = trace w
         @ (if path_exists w (abspath cwd VERIFY_KEYCHAIN)
            then [Exec delete_verify_cmd (fst (tool delete_verify_cmd (fs w) (ext w)))] else [])
         @ verify_events cwd ep rs
     \<and> (res = Inr () \<and> length rs = 2
        \<or> res = Inl (Raised UnicodeDecodeError) \<and> length rs \<le> 2)"
proof -
  let ?pre = "if path_exists w (abspath cwd VERIFY_KEYCHAIN)
            then [Exec delete_verify_cmd (fst (tool delete_verify_cmd (fs w) (ext w)))] else []"
  let ?first = "\<lambda>w. if path_exists w (abspath cwd VERIFY_KEYCHAIN)
              then seq (run tool (map Some delete_verify_cmd)) (\<lambda>_. return ()) w
              else return () w"
  obtain res0 w0 where w0: "?first w = (res0, w0)" "trace w0 = trace w @ ?pre"
    "res0 = Inr () \<or> res0 = Inl (Raised UnicodeDecodeError)"
  proof (cases "path_exists w (abspath cwd VERIFY_KEYCHAIN)")
    case True
    from run_started[OF those_map_Some, of delete_verify_cmd tool w] verify_cmds_startable(1)
    obtain res w' where r: "run tool (map Some delete_verify_cmd) w = (res, w')"
      "trace w' = trace w @ [Exec delete_verify_cmd (fst (tool delete_verify_cmd (fs w) (ext w)))]"
      "res = Inl (Raised UnicodeDecodeError) \<or> (\<exists>r. res = Inr r)"
      by auto
    from r(3) show ?thesis
    proof
      assume "res = Inl (Raised UnicodeDecodeError)"
      with True r(1,2) show ?thesis
        by (intro that[of "Inl (Raised UnicodeDecodeError)" w']) (simp_all add: seq_def)
    next
      assume "\<exists>r. res = Inr r"
      with True r(1,2) show ?thesis
        by (intro that[of "Inr ()" w']) (auto simp: seq_def return_def)
    qed
  next
    case False
    then show ?thesis by (intro that[of "Inr ()" w]) (simp_all add: return_def)
  qed
  from w0(3) show ?thesis
  proof
    assume "res0 = Inl (Raised UnicodeDecodeError)"
    with w0(1) have "verify_setup tool cwd w = (Inl (Raised UnicodeDecodeError), w0)"
      by (simp add: verify_setup_def seq_def)
    moreover from w0(2) have "trace w0 = trace w @ ?pre @ verify_events cwd ep []"
      by (simp add: verify_events_def)
    ultimately show ?thesis by (intro exI[of _ "[]"] exI conjI) auto
  next
    assume ok0: "res0 = Inr ()"
    from run_started[OF those_map_Some, of create_verify_cmd tool w0] verify_cmds_startable(2)
    obtain res1 w1 o1 where 1: "run tool (map Some create_verify_cmd) w0 = (res1, w1)"
      "trace w1 = trace w0 @ [Exec create_verify_cmd o1]"
      "res1 = Inl (Raised UnicodeDecodeError) \<or> (\<exists>r. res1 = Inr r)"
      by auto
    from 1(3) show ?thesis
    proof
      assume "res1 = Inl (Raised UnicodeDecodeError)"
      with w0(1) ok0 1(1)
      have "verify_setup tool cwd w = (Inl (Raised UnicodeDecodeError), w1)"
        by (simp add: verify_setup_def seq_def)
      moreover from w0(2) 1(2) have "trace w1 = trace w @ ?pre @ verify_events cwd ep [o1]"
        by (simp add: verify_events_def)
      ultimately show ?thesis by (intro exI[of _ "[o1]"] exI conjI) auto
    next
      assume "\<exists>r. res1 = Inr r"
      then obtain r1 where ok1: "res1 = Inr r1" ..
      from run_started[OF those_map_Some, of settings_verify_cmd tool w1]
        verify_cmds_startable(3)
      obtain res2 w2 o2 where 2: "run tool (map Some settings_verify_cmd) w1 = (res2, w2)"
        "trace w2 = trace w1 @ [Exec settings_verify_cmd o2]"
        "res2 = Inl (Raised UnicodeDecodeError) \<or> (\<exists>r. res2 = Inr r)"
        by auto
      from w0(2) 1(2) 2(2) have t: "trace w2 = trace w @ ?pre @ verify_events cwd ep [o1, o2]"
        by (simp add: verify_events_def)
      from 2(3) show ?thesis
      proof
        assume "res2 = Inl (Raised UnicodeDecodeError)"
        with w0(1) ok0 1(1) ok1 2(1)
        have "verify_setup tool cwd w = (Inl (Raised UnicodeDecodeError), w2)"
          by (simp add: verify_setup_def seq_def)
        with t show ?thesis by (intro exI[of _ "[o1, o2]"] exI conjI) auto
      next
        assume "\<exists>r. res2 = Inr r"
        with w0(1) ok0 1(1) ok1 2(1)
        have "verify_setup tool cwd w = (Inr (), w2)"
          by (auto simp: verify_setup_def seq_def return_def)
        with t show ?thesis by (intro exI[of _ "[o1, o2]"] exI conjI) auto
      qed
    qed
  qed
qed

text \<open>
  The verification, whatever its outcome: after the deletion of the old keychain, if its
  path exists, its effects are the first of the four commands creation, settings, import
  and deletion, all four unless it stops on an exception.
\<close>

lemma verify_p12_trace:
  "\<exists>res w' rs. verify_p12 tool cwd (Some ep) wv = (res, w')
     \<and> trace w' = trace wv
         @ (if path_exists wv (abspath cwd VERIFY_KEYCHAIN)
            then [Exec delete_verify_cmd (fst (tool delete_verify_cmd (fs wv) (ext wv)))] else [])
         @ verify_events cwd ep rs
     \<and> length rs \<le> 4
     \<and> (length rs = 4 \<or> (\<exists>e. res = Inl (Raised e)))"
proof -
  let ?pre = "if path_exists wv (abspath cwd VERIFY_KEYCHAIN)
            then [Exec delete_verify_cmd (fst (tool delete_verify_cmd (fs wv) (ext wv)))] else []"
  from verify_setup_result[of tool cwd wv ep]
  obtain res0 ws rs0 where s: "verify_setup tool cwd wv = (res0, ws)"
    "trace ws = trace wv @ ?pre @ verify_events cwd ep rs0"
    "res0 = Inr () \<and> length rs0 = 2 \<or> res0 = Inl (Raised UnicodeDecodeError) \<and> length rs0 \<le> 2"
    by blast
  from s(3) show ?thesis
  proof
    assume "res0 = Inl (Raised UnicodeDecodeError) \<and> length rs0 \<le> 2"
    with s(1) have "verify_p12 tool cwd (Some ep) wv = (Inl (Raised UnicodeDecodeError), ws)"
      "length rs0 \<le> 4"
      by (simp_all add: verify_split seq_def)
    with s(2) show ?thesis by blast
  next
    assume "res0 = Inr () \<and> length rs0 = 2"
    then have ok0: "res0 = Inr ()" and "length rs0 = 2" by simp_all
    then obtain o1 o2 where rs0: "rs0 = [o1, o2]" using length2 by blast
    from run_any[of tool "verify_cmd cwd (Some ep)" ws]
    obtain res3 wi where 3: "run tool (verify_cmd cwd (Some ep)) ws = (res3, wi)"
      "(\<exists>e. res3 = Inl (Raised e)) \<and> wi = ws
       \<or> (\<exists>o3. trace wi = trace ws @ [Exec (import_args cwd ep) o3])"
      by (auto simp: verify_cmd_those)
    show ?thesis
    proof (cases res3)
      case (Inl a)
      with 3(1) s(1) ok0 have v: "verify_p12 tool cwd (Some ep) wv = (Inl a, wi)"
        by (simp add: verify_split seq_def)
      from Inl 3(1) obtain e where e: "a = Raised e"
        by (auto simp: run_def subprocess_run_def split: option.splits if_splits prod.splits)
      from 3(2) show ?thesis
      proof
        assume "(\<exists>e. res3 = Inl (Raised e)) \<and> wi = ws"
        with s(2) have "trace wi = trace wv @ ?pre @ verify_events cwd ep rs0" by simp
        with v e rs0 show ?thesis by (intro exI[of _ rs0] exI conjI) auto
      next
        assume "\<exists>o3. trace wi = trace ws @ [Exec (import_args cwd ep) o3]"
        then obtain o3 where "trace wi = trace ws @ [Exec (import_args cwd ep) o3]" ..
        with s(2) rs0 have "trace wi = trace wv @ ?pre @ verify_events cwd ep [o1, o2, o3]"
          by (simp add: verify_events_def)
        with v e show ?thesis by (intro exI[of _ "[o1, o2, o3]"] exI conjI) auto
      qed
    next
      case (Inr r3)
      with 3 obtain o3 where t3: "trace wi = trace ws @ [Exec (import_args cwd ep) o3]"
        by auto
      from run_started[OF those_map_Some, of delete_verify_cmd tool wi] verify_cmds_startable(1)
      obtain res4 w4 o4 where 4: "run tool (map Some delete_verify_cmd) wi = (res4, w4)"
        "trace w4 = trace wi @ [Exec delete_verify_cmd o4]"
        "res4 = Inl (Raised UnicodeDecodeError) \<or> (\<exists>r. res4 = Inr r)"
        by auto
      from s(2) rs0 t3 4(2)
      have t: "trace w4 = trace wv @ ?pre @ verify_events cwd ep [o1, o2, o3, o4]"
        by (simp add: verify_events_def)
      from 4(3) show ?thesis
      proof
        assume "res4 = Inl (Raised UnicodeDecodeError)"
        with s(1) ok0 3(1) Inr 4(1)
        have "verify_p12 tool cwd (Some ep) wv = (Inl (Raised UnicodeDecodeError), w4)"
          by (simp add: verify_split seq_def)
        with t show ?thesis by (intro exI[of _ "[o1, o2, o3, o4]"] exI conjI) auto
      next
        assume "\<exists>r. res4 = Inr r"
        then obtain r4 where "res4 = Inr r4" ..
        with s(1) ok0 3(1) Inr 4(1)
        have "verify_p12 tool cwd (Some ep) wv
                = ((if returncode r3 \<noteq> 0 then sys_exit 1 else return ()) w4)"
          by (simp add: verify_split seq_def)
        then obtain res where "verify_p12 tool cwd (Some ep) wv = (res, w4)"
          by (cases "returncode r3 \<noteq> 0") (simp_all add: sys_exit_def return_def)
        with t show ?thesis by (intro exI[of _ "[o1, o2, o3, o4]"] exI conjI) auto
      qed
    qed
  qed
qed

section \<open>Properties of the command runner\<close>




section \<open>Properties of the run\<close>

text \<open>
  Every normal return of the script ends with the write of the encoded bundle: the text
  written is the Base64 encoding of the bytes the bundle holds.
\<close>

lemma normal_return_encodes_bundle:
  assumes "script tool cwd env_file w = (Inr (), w')"
  shows "\<exists>content.
           fs w' (OUTPUT_P12 cwd) = Some content
         \<and> fs w' (OUTPUT_B64 cwd) = Some (encode_utf8 (b64encode content))
         \<and> trace w' \<noteq> []
         \<and> last (trace w') = Write (OUTPUT_B64 cwd) (b64encode content)
         \<and> b64decode (b64encode content) = Some content"
proof -
  from assms obtain EP TP where "main tool cwd EP TP w = (Inr (), w')"
    by (auto simp: script_def Let_def sys_exit_def split: if_splits)
  then obtain u wv where "seq (verify_p12 tool cwd EP) (\<lambda>_. encode_p12 cwd) wv = (Inr (), w')"
    unfolding main_split by (rule seq_InrD)
  then obtain u' we where "encode_p12 cwd we = (Inr (), w')"
    by (rule seq_InrD)
  then obtain content where c: "fs we (OUTPUT_P12 cwd) = Some content"
    "w' = we\<lparr>fs := (fs we)(OUTPUT_B64 cwd \<mapsto> encode_utf8 (b64encode content)),
                trace := trace we @ [Write (OUTPUT_B64 cwd) (b64encode content)]\<rparr>"
    using encode_p12_result by blast
  from c output_paths_differ[of cwd] have "fs w' (OUTPUT_P12 cwd) = Some content" by simp
  moreover from c have "fs w' (OUTPUT_B64 cwd) = Some (encode_utf8 (b64encode content))" by simp
  moreover from c have "trace w' \<noteq> []"
    "last (trace w') = Write (OUTPUT_B64 cwd) (b64encode content)" by simp_all
  ultimately show ?thesis using b64_roundtrip[of content] by blast
qed

text \<open>
  Claim C1. Take a run in which the configuration has both required keys (not empty), the
  run reaches the verification (so the export left a bundle that is not empty), the
  verification returns (so the import had status 0), and the bundle then holds the bytes
  \<open>content\<close>, which is what the encoder reads. Then the script returns normally, and its
  last effect is the write of the Base64 encoding of \<open>content\<close> to the text file: in the
  final state the bundle still holds \<open>content\<close>, the text file holds the UTF-8 bytes of
  that encoding, and decoding the encoding gives \<open>content\<close> back.
\<close>

theorem base64_file_encodes_bundle:
  assumes "load_env env_file ''APPLE_CERT_HASH'' = Some h" and "h \<noteq> []"
    and "load_env env_file ''APPLE_CERT_EXPORT_PASS'' = Some ep" and "ep \<noteq> []"
    and "main_to_verify tool cwd (Some ep) (load_env env_file ''APPLE_TEMP_KEYCHAIN_PASS'') w
           = (Inr (), wv)"
    and "verify_p12 tool cwd (Some ep) wv = (Inr (), we)"
    and "fs we (OUTPUT_P12 cwd) = Some content"
  shows "\<exists>w'. script tool cwd env_file w = (Inr (), w')
         \<and> trace w' = trace we @ [Write (OUTPUT_B64 cwd) (b64encode content)]
         \<and> fs w' (OUTPUT_B64 cwd) = Some (encode_utf8 (b64encode content))
         \<and> fs w' (OUTPUT_P12 cwd) = Some content
         \<and> b64decode (b64encode content) = Some content"
proof -
  let ?w' = "we\<lparr>fs := (fs we)(OUTPUT_B64 cwd \<mapsto> encode_utf8 (b64encode content)),
                 trace := trace we @ [Write (OUTPUT_B64 cwd) (b64encode content)]\<rparr>"
  from assms(7) have "encode_p12 cwd we = (Inr (), ?w')"
    by (simp add: encode_p12_def seq_def read_bytes_def write_text_def)
  with assms(5,6)
  have "main tool cwd (Some ep) (load_env env_file ''APPLE_TEMP_KEYCHAIN_PASS'') w
          = (Inr (), ?w')"
    by (simp add: main_split seq_def)
  with assms(1-4) have "script tool cwd env_file w = (Inr (), ?w')"
    by (simp add: script_def falsy_def)
  moreover from assms(7) output_paths_differ[of cwd]
  have "fs ?w' (OUTPUT_P12 cwd) = Some content" by simp
  ultimately show ?thesis using b64_roundtrip[of content] by simp
qed

theorem base64_file_encodes_bundle_witness:
  "load_env full_config ''APPLE_CERT_HASH'' = Some ''abc'' \<and> ''abc'' \<noteq> []
   \<and> load_env full_config ''APPLE_CERT_EXPORT_PASS'' = Some ''pw'' \<and> ''pw'' \<noteq> []
   \<and> main_to_verify (stub_security (Some [1, 2, 3]) 0) ''/repo'' (Some ''pw'')
        (load_env full_config ''APPLE_TEMP_KEYCHAIN_PASS'') empty_world
     = (Inr (), snd (main_to_verify (stub_security (Some [1, 2, 3]) 0) ''/repo'' (Some ''pw'') (Some ''tp'') empty_world))
   \<and> verify_p12 (stub_security (Some [1, 2, 3]) 0) ''/repo'' (Some ''pw'')
        (snd (main_to_verify (stub_security (Some [1, 2, 3]) 0) ''/repo'' (Some ''pw'') (Some ''tp'') empty_world))
     = (Inr (), snd (verify_p12 (stub_security (Some [1, 2, 3]) 0) ''/repo'' (Some ''pw'')
          (snd (main_to_verify (stub_security (Some [1, 2, 3]) 0) ''/repo'' (Some ''pw'') (Some ''tp'') empty_world))))
   \<and> fs (snd (verify_p12 (stub_security (Some [1, 2, 3]) 0) ''/repo'' (Some ''pw'')
          (snd (main_to_verify (stub_security (Some [1, 2, 3]) 0) ''/repo'' (Some ''pw'') (Some ''tp'') empty_world))))
        (OUTPUT_P12 ''/repo'') = Some [1, 2, 3]
   \<and> fst (script (stub_security (Some [1, 2, 3]) 0) ''/repo'' full_config empty_world) = Inr ()
   \<and> fs (snd (script (stub_security (Some [1, 2, 3]) 0) ''/repo'' full_config empty_world)) (OUTPUT_B64 ''/repo'')
     = Some (encode_utf8 (b64encode [1, 2, 3]))
   \<and> b64encode [1, 2, 3] = ''AQID''
   \<and> b64decode ''AQID'' = Some [1, 2, 3]"
proof -
  have k1: "load_env full_config ''APPLE_CERT_HASH'' = Some ''abc''"
    and k2: "load_env full_config ''APPLE_CERT_EXPORT_PASS'' = Some ''pw''"
    and k3: "load_env full_config ''APPLE_TEMP_KEYCHAIN_PASS'' = Some ''tp''"
    by (simp_all add: full_config_def loader_defs)
  have "fst (main_to_verify (stub_security (Some [1, 2, 3]) 0) ''/repo'' (Some ''pw'') (Some ''tp'') empty_world) = Inr ()"
    by code_simp
  then have h5: "main_to_verify (stub_security (Some [1, 2, 3]) 0) ''/repo'' (Some ''pw'')
        (load_env full_config ''APPLE_TEMP_KEYCHAIN_PASS'') empty_world
     = (Inr (), snd (main_to_verify (stub_security (Some [1, 2, 3]) 0) ''/repo'' (Some ''pw'') (Some ''tp'') empty_world))"
    unfolding k3 by (rule pair_fstI)
  have "fst (verify_p12 (stub_security (Some [1, 2, 3]) 0) ''/repo'' (Some ''pw'')
        (snd (main_to_verify (stub_security (Some [1, 2, 3]) 0) ''/repo'' (Some ''pw'') (Some ''tp'') empty_world)))
     = Inr ()"
    by code_simp
  then have h6: "verify_p12 (stub_security (Some [1, 2, 3]) 0) ''/repo'' (Some ''pw'')
        (snd (main_to_verify (stub_security (Some [1, 2, 3]) 0) ''/repo'' (Some ''pw'') (Some ''tp'') empty_world))
     = (Inr (), snd (verify_p12 (stub_security (Some [1, 2, 3]) 0) ''/repo'' (Some ''pw'')
          (snd (main_to_verify (stub_security (Some [1, 2, 3]) 0) ''/repo'' (Some ''pw'') (Some ''tp'') empty_world))))"
    by (rule pair_fstI)
  have h7: "fs (snd (verify_p12 (stub_security (Some [1, 2, 3]) 0) ''/repo'' (Some ''pw'')
          (snd (main_to_verify (stub_security (Some [1, 2, 3]) 0) ''/repo'' (Some ''pw'') (Some ''tp'') empty_world))))
        (OUTPUT_P12 ''/repo'') = Some [1, 2, 3]"
    by code_simp
  have e: "b64encode [1, 2, 3] = ''AQID''"
    by code_simp
  have n1: "''abc'' \<noteq> []" and n2: "''pw'' \<noteq> []"
    by simp_all
  from base64_file_encodes_bundle[OF k1 n1 k2 n2 h5 h6 h7]
  obtain w' where r: "script (stub_security (Some [1, 2, 3]) 0) ''/repo'' full_config empty_world = (Inr (), w')"
    "fs w' (OUTPUT_B64 ''/repo'') = Some (encode_utf8 (b64encode [1, 2, 3]))"
    "b64decode (b64encode [1, 2, 3]) = Some [1, 2, 3]"
    by blast
  from r(1) have f1: "fst (script (stub_security (Some [1, 2, 3]) 0) ''/repo'' full_config empty_world) = Inr ()"
    by simp
  from r(1,2)
  have f2: "fs (snd (script (stub_security (Some [1, 2, 3]) 0) ''/repo'' full_config empty_world)) (OUTPUT_B64 ''/repo'')
     = Some (encode_utf8 (b64encode [1, 2, 3]))"
    by (simp only: snd_conv)
  from r(3) have d: "b64decode ''AQID'' = Some [1, 2, 3]"
    unfolding e .
  show ?thesis
    by (intro conjI k1 n1 k2 n2 h5 h6 h7 f1 f2 e d)
qed

text \<open>
  Claim C3, as the code has it. Take a run that reaches the verification, sets up the
  verification keychain, and in which the import returns a result to the script,
  whatever its status. Then the import is the last effect so far, and the next thing
  the verification does is to run the command that deletes the verification keychain:
  the state it ends in is the state that command leaves, so the keychain is gone
  exactly if that command removes it; its result is not looked at. When the import
  returned a status other than 0, \<open>main\<close> ends in that state with exit status 1, by
  \<open>sys.exit(1)\<close>, or by \<open>UnicodeDecodeError\<close> where the output of the delete command does
  not decode.
\<close>

theorem verify_delete_issued_after_import:
  assumes "main_to_verify tool cwd EP TP w0 = (Inr (), wv)"
    and "verify_setup tool cwd wv = (Inr (), ws)"
    and "run tool (verify_cmd cwd EP) ws = (Inr verify_result, wi)"
  shows "(\<exists>ep. EP = Some ep
            \<and> trace wi = trace ws
                @ [Exec (import_args cwd ep) (fst (tool (import_args cwd ep) (fs ws) (ext ws)))])
       \<and> snd (verify_p12 tool cwd EP wv)
           = wi\<lparr>fs := fst (snd (tool delete_verify_cmd (fs wi) (ext wi))),
                ext := snd (snd (tool delete_verify_cmd (fs wi) (ext wi))),
                trace := trace wi
                  @ [Exec delete_verify_cmd (fst (tool delete_verify_cmd (fs wi) (ext wi)))]\<rparr>
       \<and> (returncode verify_result \<noteq> 0 \<longrightarrow>
            snd (main tool cwd EP TP w0) = snd (verify_p12 tool cwd EP wv)
            \<and> exit_status (fst (main tool cwd EP TP w0)) = 1
            \<and> (fst (main tool cwd EP TP w0) = Inl (SystemExit 1)
               \<or> fst (main tool cwd EP TP w0) = Inl (Raised UnicodeDecodeError)))"
proof -
  let ?w' = "wi\<lparr>fs := fst (snd (tool delete_verify_cmd (fs wi) (ext wi))),
                ext := snd (snd (tool delete_verify_cmd (fs wi) (ext wi))),
                trace := trace wi
                  @ [Exec delete_verify_cmd (fst (tool delete_verify_cmd (fs wi) (ext wi)))]\<rparr>"
  from assms(1) obtain ep where ep: "EP = Some ep"
    using main_to_verify_result by blast
  from run_Inr[OF assms(3)] ep
  have imp: "trace wi = trace ws
      @ [Exec (import_args cwd ep) (fst (tool (import_args cwd ep) (fs ws) (ext ws)))]"
    by (auto simp: verify_cmd_those)
  from run_started[OF those_map_Some, of delete_verify_cmd tool wi] verify_cmds_startable(1)
  obtain res4 where d: "run tool (map Some delete_verify_cmd) wi = (res4, ?w')"
    "res4 = Inl (Raised UnicodeDecodeError) \<or> (\<exists>r. res4 = Inr r)"
    by auto
  from d(2) have "snd (verify_p12 tool cwd EP wv) = ?w'
       \<and> (returncode verify_result \<noteq> 0 \<longrightarrow>
            snd (main tool cwd EP TP w0) = ?w'
            \<and> exit_status (fst (main tool cwd EP TP w0)) = 1
            \<and> (fst (main tool cwd EP TP w0) = Inl (SystemExit 1)
               \<or> fst (main tool cwd EP TP w0) = Inl (Raised UnicodeDecodeError)))"
  proof
    assume "res4 = Inl (Raised UnicodeDecodeError)"
    with d(1) assms(2,3)
    have v: "verify_p12 tool cwd EP wv = (Inl (Raised UnicodeDecodeError), ?w')"
      by (simp add: verify_split seq_def)
    with assms(1) have "main tool cwd EP TP w0 = (Inl (Raised UnicodeDecodeError), ?w')"
      by (simp add: main_split seq_def)
    with v show ?thesis by (simp add: exit_status_def)
  next
    assume "\<exists>r. res4 = Inr r"
    then obtain r4 where "res4 = Inr r4" ..
    with d(1) assms(2,3)
    have v: "verify_p12 tool cwd EP wv
       = ((if returncode verify_result \<noteq> 0 then Inl (SystemExit 1) else Inr ()), ?w')"
      by (simp add: verify_split seq_def sys_exit_def return_def)
    with assms(1)
    have "main tool cwd EP TP w0 = (Inl (SystemExit 1), ?w')" if "returncode verify_result \<noteq> 0"
      using that by (simp add: main_split seq_def)
    with v show ?thesis by (simp add: exit_status_def)
  qed
  with ep imp show ?thesis by simp
qed

theorem verify_delete_issued_after_import_witness:
  "main_to_verify (stub_security (Some [1, 2, 3]) 1) ''/repo'' (Some ''pw'') (Some ''tp'') empty_world = (Inr (), snd (main_to_verify (stub_security (Some [1, 2, 3]) 1) ''/repo'' (Some ''pw'') (Some ''tp'') empty_world))
   \<and> verify_setup (stub_security (Some [1, 2, 3]) 1) ''/repo'' (snd (main_to_verify (stub_security (Some [1, 2, 3]) 1) ''/repo'' (Some ''pw'') (Some ''tp'') empty_world)) = (Inr (), snd (verify_setup (stub_security (Some [1, 2, 3]) 1) ''/repo'' (snd (main_to_verify (stub_security (Some [1, 2, 3]) 1) ''/repo'' (Some ''pw'') (Some ''tp'') empty_world))))
   \<and> run (stub_security (Some [1, 2, 3]) 1) (verify_cmd ''/repo'' (Some ''pw'')) (snd (verify_setup (stub_security (Some [1, 2, 3]) 1) ''/repo'' (snd (main_to_verify (stub_security (Some [1, 2, 3]) 1) ''/repo'' (Some ''pw'') (Some ''tp'') empty_world))))
     = (Inr \<lparr>returncode = 1, stdout = [], stderr = []\<rparr>,
        snd (run (stub_security (Some [1, 2, 3]) 1) (verify_cmd ''/repo'' (Some ''pw'')) (snd (verify_setup (stub_security (Some [1, 2, 3]) 1) ''/repo'' (snd (main_to_verify (stub_security (Some [1, 2, 3]) 1) ''/repo'' (Some ''pw'') (Some ''tp'') empty_world))))))
   \<and> exit_status (fst (main (stub_security (Some [1, 2, 3]) 1) ''/repo'' (Some ''pw'') (Some ''tp'') empty_world)) = 1
   \<and> drop 6 (trace (snd (main (stub_security (Some [1, 2, 3]) 1) ''/repo'' (Some ''pw'') (Some ''tp'') empty_world)))
     = [Exec create_verify_cmd (quiet 0), Exec settings_verify_cmd (quiet 0),
        Exec (import_args ''/repo'' ''pw'') (quiet 1), Exec delete_verify_cmd (quiet 0)]"
proof -
  have "fst (main_to_verify (stub_security (Some [1, 2, 3]) 1) ''/repo'' (Some ''pw'') (Some ''tp'') empty_world) = Inr ()"
    by code_simp
  then have h1: "main_to_verify (stub_security (Some [1, 2, 3]) 1) ''/repo'' (Some ''pw'') (Some ''tp'') empty_world = (Inr (), snd (main_to_verify (stub_security (Some [1, 2, 3]) 1) ''/repo'' (Some ''pw'') (Some ''tp'') empty_world))"
    by (rule pair_fstI)
  have "fst (verify_setup (stub_security (Some [1, 2, 3]) 1) ''/repo'' (snd (main_to_verify (stub_security (Some [1, 2, 3]) 1) ''/repo'' (Some ''pw'') (Some ''tp'') empty_world))) = Inr ()"
    by code_simp
  then have h2: "verify_setup (stub_security (Some [1, 2, 3]) 1) ''/repo'' (snd (main_to_verify (stub_security (Some [1, 2, 3]) 1) ''/repo'' (Some ''pw'') (Some ''tp'') empty_world)) = (Inr (), snd (verify_setup (stub_security (Some [1, 2, 3]) 1) ''/repo'' (snd (main_to_verify (stub_security (Some [1, 2, 3]) 1) ''/repo'' (Some ''pw'') (Some ''tp'') empty_world))))"
    by (rule pair_fstI)
  have "fst (run (stub_security (Some [1, 2, 3]) 1) (verify_cmd ''/repo'' (Some ''pw'')) (snd (verify_setup (stub_security (Some [1, 2, 3]) 1) ''/repo'' (snd (main_to_verify (stub_security (Some [1, 2, 3]) 1) ''/repo'' (Some ''pw'') (Some ''tp'') empty_world)))))
     = Inr \<lparr>returncode = 1, stdout = [], stderr = []\<rparr>"
    by code_simp
  then have h3: "run (stub_security (Some [1, 2, 3]) 1) (verify_cmd ''/repo'' (Some ''pw'')) (snd (verify_setup (stub_security (Some [1, 2, 3]) 1) ''/repo'' (snd (main_to_verify (stub_security (Some [1, 2, 3]) 1) ''/repo'' (Some ''pw'') (Some ''tp'') empty_world))))
     = (Inr \<lparr>returncode = 1, stdout = [], stderr = []\<rparr>,
        snd (run (stub_security (Some [1, 2, 3]) 1) (verify_cmd ''/repo'' (Some ''pw'')) (snd (verify_setup (stub_security (Some [1, 2, 3]) 1) ''/repo'' (snd (main_to_verify (stub_security (Some [1, 2, 3]) 1) ''/repo'' (Some ''pw'') (Some ''tp'') empty_world))))))"
    by (rule pair_fstI)
  have t: "drop 6 (trace (snd (main (stub_security (Some [1, 2, 3]) 1) ''/repo'' (Some ''pw'') (Some ''tp'') empty_world)))
     = [Exec create_verify_cmd (quiet 0), Exec settings_verify_cmd (quiet 0),
        Exec (import_args ''/repo'' ''pw'') (quiet 1), Exec delete_verify_cmd (quiet 0)]"
    by code_simp
  from verify_delete_issued_after_import[OF h1 h2 h3]
  have "exit_status (fst (main (stub_security (Some [1, 2, 3]) 1) ''/repo'' (Some ''pw'') (Some ''tp'') empty_world)) = 1"
    by simp
  with h1 h2 h3 t show ?thesis by blast
qed

text \<open>
  Claim C3 as it is written fails in two ways. Where the delete command fails and leaves
  the keychain, the run ends with status 1 after that command and the verification
  keychain is still there. Where the output of the import does not decode, the run ends
  with \<open>UnicodeDecodeError\<close> at the import: no delete command follows, and the
  verification keychain is still there.
\<close>

theorem verify_keychain_left_counterexample:
  "exit_status (fst (main (stub_keychains (quiet 1) (quiet 1)) ''/repo'' (Some ''pw'')
                       (Some ''tp'') no_keychains)) = 1
   \<and> last (trace (snd (main (stub_keychains (quiet 1) (quiet 1)) ''/repo'' (Some ''pw'')
                          (Some ''tp'') no_keychains)))
     = Exec delete_verify_cmd (quiet 1)
   \<and> VERIFY_KEYCHAIN \<in> set (ext (snd (main (stub_keychains (quiet 1) (quiet 1)) ''/repo''
                                         (Some ''pw'') (Some ''tp'') no_keychains)))
   \<and> fst (main (stub_keychains undecodable (quiet 0)) ''/repo'' (Some ''pw'') (Some ''tp'')
            no_keychains) = Inl (Raised UnicodeDecodeError)
   \<and> last (trace (snd (main (stub_keychains undecodable (quiet 0)) ''/repo'' (Some ''pw'')
                          (Some ''tp'') no_keychains)))
     = Exec (import_args ''/repo'' ''pw'') undecodable
   \<and> VERIFY_KEYCHAIN \<in> set (ext (snd (main (stub_keychains undecodable (quiet 0)) ''/repo''
                                         (Some ''pw'') (Some ''tp'') no_keychains)))"
  by code_simp

text \<open>
  Claim C4. Take a run that has reached the export and has run it. If the bundle is then
  missing or empty, \<open>main\<close> stops with \<open>sys.exit(1)\<close> in the very state the export left:
  exit status 1, and among all the effects of the run there is no creation of the
  verification keychain, no import and no write of a file.
\<close>

theorem failed_export_stops_run:
  assumes "main_to_export tool cwd TP w0 = (Inr (), w1)"
    and "export_p12 tool cwd EP w1 = (Inr result, w2)"
    and "fs w2 (OUTPUT_P12 cwd) = None \<or> fs w2 (OUTPUT_P12 cwd) = Some []"
  shows "main tool cwd EP TP w0 = (Inl (SystemExit 1), w2)
       \<and> exit_status (fst (main tool cwd EP TP w0)) = 1
       \<and> (\<exists>evs. trace w2 = trace w0 @ evs
             \<and> (\<forall>e\<in>set evs. \<not> is_exec_of create_verify_cmd e \<and> \<not> is_import e \<and> \<not> is_write e))"
proof -
  from assms(3) have "\<not> p12_nonempty cwd w2" by (auto simp: p12_nonempty_def)
  with assms(1,2) have m: "main tool cwd EP TP w0 = (Inl (SystemExit 1), w2)"
    by (simp add: main_from_export seq_def check_export_def sys_exit_def)
  from main_to_export_result[OF assms(1)] obtain tp rm rs where p:
    "trace w1 = trace w0
         @ (if path_exists w0 (abspath cwd TEMP_KEYCHAIN)
            then [Exec delete_temp_cmd (fst (tool delete_temp_cmd (fs w0) (ext w0)))] else [])
         @ rm @ create_temp_events tp rs"
    "rm = [] \<or> rm = [Remove (OUTPUT_P12 cwd)]" "length rs = 4"
    by blast
  from export_p12_returns[OF assms(2)] obtain ep r1 r2 where x:
    "trace w2 = trace w1 @ [Exec (export_args cwd ep) r1, Exec (export_args cwd ep) r2]"
    by blast
  let ?pre = "if path_exists w0 (abspath cwd TEMP_KEYCHAIN)
            then [Exec delete_temp_cmd (fst (tool delete_temp_cmd (fs w0) (ext w0)))] else []"
  let ?evs = "?pre @ rm @ create_temp_events tp rs
              @ [Exec (export_args cwd ep) r1, Exec (export_args cwd ep) r2]"
  have "trace w2 = trace w0 @ ?evs" using p(1) x by simp
  moreover have "\<not> is_exec_of create_verify_cmd e \<and> \<not> is_import e \<and> \<not> is_write e"
    if "e \<in> set ?evs" for e
  proof -
    from that consider "e \<in> set ?pre" | "e \<in> set rm" | "e \<in> set (create_temp_events tp rs)"
      | "e \<in> set [Exec (export_args cwd ep) r1, Exec (export_args cwd ep) r2]"
      by auto
    then show ?thesis
    proof cases
      case 1
      then show ?thesis
        by (auto simp: delete_temp_cmd_def create_verify_cmd_def split: if_splits)
    next
      case 2
      with p(2) show ?thesis by auto
    next
      case 3
      with p(3) show ?thesis by (rule create_temp_events_quiet)
    next
      case 4
      then show ?thesis by (auto simp: export_args_def create_verify_cmd_def)
    qed
  qed
  ultimately have "\<exists>evs. trace w2 = trace w0 @ evs
             \<and> (\<forall>e\<in>set evs. \<not> is_exec_of create_verify_cmd e \<and> \<not> is_import e \<and> \<not> is_write e)"
    by blast
  with m show ?thesis by (simp add: exit_status_def)
qed

theorem failed_export_stops_run_witness:
  "main_to_export (stub_security None 0) ''/repo'' (Some ''tp'') empty_world
     = (Inr (), snd (main_to_export (stub_security None 0) ''/repo'' (Some ''tp'') empty_world))
   \<and> export_p12 (stub_security None 0) ''/repo'' (Some ''pw'')
        (snd (main_to_export (stub_security None 0) ''/repo'' (Some ''tp'') empty_world))
     = (Inr \<lparr>returncode = 1, stdout = [], stderr = ''no identities''\<rparr>,
        snd (export_p12 (stub_security None 0) ''/repo'' (Some ''pw'')
               (snd (main_to_export (stub_security None 0) ''/repo'' (Some ''tp'') empty_world))))
   \<and> fs (snd (export_p12 (stub_security None 0) ''/repo'' (Some ''pw'')
               (snd (main_to_export (stub_security None 0) ''/repo'' (Some ''tp'') empty_world))))
        (OUTPUT_P12 ''/repo'') = None
   \<and> main (stub_security None 0) ''/repo'' (Some ''pw'') (Some ''tp'') empty_world
     = (Inl (SystemExit 1),
        snd (export_p12 (stub_security None 0) ''/repo'' (Some ''pw'')
               (snd (main_to_export (stub_security None 0) ''/repo'' (Some ''tp'') empty_world))))
   \<and> exit_status (fst (main (stub_security None 0) ''/repo'' (Some ''pw'') (Some ''tp'') empty_world)) = 1"
proof -
  have "fst (main_to_export (stub_security None 0) ''/repo'' (Some ''tp'') empty_world) = Inr ()"
    by code_simp
  then have h1: "main_to_export (stub_security None 0) ''/repo'' (Some ''tp'') empty_world
     = (Inr (), snd (main_to_export (stub_security None 0) ''/repo'' (Some ''tp'') empty_world))"
    by (rule pair_fstI)
  have "fst (export_p12 (stub_security None 0) ''/repo'' (Some ''pw'')
          (snd (main_to_export (stub_security None 0) ''/repo'' (Some ''tp'') empty_world)))
     = Inr \<lparr>returncode = 1, stdout = [], stderr = ''no identities''\<rparr>"
    by code_simp
  then have h2: "export_p12 (stub_security None 0) ''/repo'' (Some ''pw'')
        (snd (main_to_export (stub_security None 0) ''/repo'' (Some ''tp'') empty_world))
     = (Inr \<lparr>returncode = 1, stdout = [], stderr = ''no identities''\<rparr>,
        snd (export_p12 (stub_security None 0) ''/repo'' (Some ''pw'')
               (snd (main_to_export (stub_security None 0) ''/repo'' (Some ''tp'') empty_world))))"
    by (rule pair_fstI)
  have h3: "fs (snd (export_p12 (stub_security None 0) ''/repo'' (Some ''pw'')
               (snd (main_to_export (stub_security None 0) ''/repo'' (Some ''tp'') empty_world))))
        (OUTPUT_P12 ''/repo'') = None"
    by code_simp
  from failed_export_stops_run[OF h1 h2 disjI1[OF h3]] h1 h2 h3 show ?thesis by blast
qed

text \<open>
  Claim C5 does not hold of the code: line 98 runs the export command and line 101 runs
  it again. In the run with a full configuration in an empty environment, where every
  command succeeds, the export command is among the effects twice.
\<close>

theorem export_invoked_twice:
  "length (filter (is_exec_of (export_args ''/repo'' ''pw''))
     (trace (snd (script (stub_security (Some [1, 2, 3]) 0) ''/repo'' full_config empty_world)))) = 2"
  by code_simp

text \<open>
  Claim C6, as the code has it. In a run that reaches the export, the cleaning (lines 49
  to 53) has deleted the old temporary keychain if its path exists and removed the old
  bundle if it exists, and done nothing else: afterwards the bundle is not there. With
  the four commands that set up the temporary keychain these are all the effects before
  the export, so none of them touches the old text file or the old verification keychain.
  The old verification keychain is deleted, if its path exists, at the start of the
  verification, which comes after the export: the verification begins with that command
  and goes on with creation, settings, import and deletion, all four unless it stops on
  an exception.
\<close>

theorem stale_state_cleanup:
  assumes "main_to_export tool cwd TP w = (Inr (), w1)"
  shows "(\<exists>wc rm. cleanup tool cwd w = (Inr (), wc)
       \<and> fs wc (OUTPUT_P12 cwd) = None
       \<and> trace wc = trace w
           @ (if path_exists w (abspath cwd TEMP_KEYCHAIN)
              then [Exec delete_temp_cmd (fst (tool delete_temp_cmd (fs w) (ext w)))] else [])
           @ rm
       \<and> (rm = [] \<or> rm = [Remove (OUTPUT_P12 cwd)]))
   \<and> (\<exists>tp rm rs. TP = Some tp
       \<and> trace w1 = trace w
           @ (if path_exists w (abspath cwd TEMP_KEYCHAIN)
              then [Exec delete_temp_cmd (fst (tool delete_temp_cmd (fs w) (ext w)))] else [])
           @ rm @ create_temp_events tp rs
       \<and> (rm = [] \<or> rm = [Remove (OUTPUT_P12 cwd)]) \<and> length rs = 4)
   \<and> (\<exists>res w' rs. verify_p12 tool cwd (Some ep) wv = (res, w')
       \<and> trace w' = trace wv
           @ (if path_exists wv (abspath cwd VERIFY_KEYCHAIN)
              then [Exec delete_verify_cmd (fst (tool delete_verify_cmd (fs wv) (ext wv)))]
              else [])
           @ verify_events cwd ep rs
       \<and> length rs \<le> 4
       \<and> (length rs = 4 \<or> (\<exists>e. res = Inl (Raised e))))"
proof (intro conjI)
  from assms obtain u wc where c: "cleanup tool cwd w = (Inr u, wc)"
    unfolding main_to_export_def by (rule seq_InrD)
  with cleanup_result[of tool cwd w]
  show "\<exists>wc rm. cleanup tool cwd w = (Inr (), wc)
       \<and> fs wc (OUTPUT_P12 cwd) = None
       \<and> trace wc = trace w
           @ (if path_exists w (abspath cwd TEMP_KEYCHAIN)
              then [Exec delete_temp_cmd (fst (tool delete_temp_cmd (fs w) (ext w)))] else [])
           @ rm
       \<and> (rm = [] \<or> rm = [Remove (OUTPUT_P12 cwd)])"
    by auto
  from main_to_export_result[OF assms]
  show "\<exists>tp rm rs. TP = Some tp
       \<and> trace w1 = trace w
           @ (if path_exists w (abspath cwd TEMP_KEYCHAIN)
              then [Exec delete_temp_cmd (fst (tool delete_temp_cmd (fs w) (ext w)))] else [])
           @ rm @ create_temp_events tp rs
       \<and> (rm = [] \<or> rm = [Remove (OUTPUT_P12 cwd)]) \<and> length rs = 4" .
  from verify_p12_trace[of tool cwd ep wv]
  show "\<exists>res w' rs. verify_p12 tool cwd (Some ep) wv = (res, w')
       \<and> trace w' = trace wv
           @ (if path_exists wv (abspath cwd VERIFY_KEYCHAIN)
              then [Exec delete_verify_cmd (fst (tool delete_verify_cmd (fs wv) (ext wv)))]
              else [])
           @ verify_events cwd ep rs
       \<and> length rs \<le> 4
       \<and> (length rs = 4 \<or> (\<exists>e. res = Inl (Raised e)))" .
qed

theorem stale_state_cleanup_witness:
  "main_to_export (stub_security None 0) ''/repo'' (Some ''tp'') stale_world
     = (Inr (), snd (main_to_export (stub_security None 0) ''/repo'' (Some ''tp'') stale_world))
   \<and> fs (snd (cleanup (stub_security None 0) ''/repo'' stale_world)) (OUTPUT_P12 ''/repo'') = None
   \<and> trace (snd (main_to_export (stub_security None 0) ''/repo'' (Some ''tp'') stale_world))
     = Exec delete_temp_cmd (quiet 0) # Remove (OUTPUT_P12 ''/repo'')
       # create_temp_events ''tp'' [quiet 0, quiet 0, quiet 0, quiet 0]"
proof -
  have "fst (main_to_export (stub_security None 0) ''/repo'' (Some ''tp'') stale_world) = Inr ()"
    by code_simp
  then have h: "main_to_export (stub_security None 0) ''/repo'' (Some ''tp'') stale_world
     = (Inr (), snd (main_to_export (stub_security None 0) ''/repo'' (Some ''tp'') stale_world))"
    by (rule pair_fstI)
  have t: "trace (snd (main_to_export (stub_security None 0) ''/repo'' (Some ''tp'') stale_world))
     = Exec delete_temp_cmd (quiet 0) # Remove (OUTPUT_P12 ''/repo'')
       # create_temp_events ''tp'' [quiet 0, quiet 0, quiet 0, quiet 0]"
    by code_simp
  from stale_state_cleanup[OF h, where ep = "''pw''" and wv = stale_world]
  obtain wc where "cleanup (stub_security None 0) ''/repo'' stale_world = (Inr (), wc)"
    "fs wc (OUTPUT_P12 ''/repo'') = None"
    by blast
  then have "fs (snd (cleanup (stub_security None 0) ''/repo'' stale_world))
      (OUTPUT_P12 ''/repo'') = None"
    by simp
  with h t show ?thesis by blast
qed

text \<open>
  Claim C6 as it is written fails: from a state with all four leftovers, the run reaches
  the export with the old text file and the old verification keychain still there, and
  without having issued the command that deletes that keychain.
\<close>

theorem stale_state_counterexample:
  "fst (main_to_export (stub_security None 0) ''/repo'' (Some ''tp'') stale_world) = Inr ()
   \<and> fs (snd (main_to_export (stub_security None 0) ''/repo'' (Some ''tp'') stale_world))
        (OUTPUT_B64 ''/repo'') = Some [65]
   \<and> fs (snd (main_to_export (stub_security None 0) ''/repo'' (Some ''tp'') stale_world))
        (abspath ''/repo'' VERIFY_KEYCHAIN) = Some [0]
   \<and> filter (is_exec_of delete_verify_cmd)
        (trace (snd (main_to_export (stub_security None 0) ''/repo'' (Some ''tp'') stale_world))) = []"
  by code_simp

text \<open>
  Claim C8 does not hold of the code: with the two required keys and without the
  password of the temporary keychain, the script passes the configuration check and then
  stops with \<open>TypeError\<close> in the runner, at the command that would create the temporary
  keychain. In an empty environment nothing has run by then.
\<close>

theorem missing_temp_pass_raises:
  "script (stub_security (Some [1, 2, 3]) 0) ''/repo'' config_without_temp_pass empty_world
     = (Inl (Raised TypeError), empty_world)
   \<and> trace (snd (script (stub_security (Some [1, 2, 3]) 0) ''/repo'' config_without_temp_pass empty_world)) = []
   \<and> exit_status (fst (script (stub_security (Some [1, 2, 3]) 0) ''/repo'' config_without_temp_pass empty_world)) = 1"
  by (simp add: script_def config_without_temp_pass_def loader_defs falsy_def main_def seq_def
      cleanup_def path_exists_def empty_world_def return_def create_temp_def run_def
      exit_status_def)

end
